theory Spec2Isabelle
  imports Complex_Main "HOL-Library.Char_ord" "HOL-Library.List_Lexorder"
    "HOL-Library.Product_Lexorder"
begin

section \<open>Strings as Python sees them\<close>

text \<open>
  A Python \<open>str\<close> is modelled as a \<open>string\<close> whose characters stand for code points
  below 256. \<open>is_space\<close> is \<open>str.isspace\<close> on that range, which is the set of
  characters that \<open>str.strip()\<close> removes: tab to carriage return, the four separators
  0x1C to 0x1F, the blank, NEL (0x85) and the no-break space (0xA0).
\<close>

definition is_space :: "char \<Rightarrow> bool" where
  "is_space c =
     (let n = (of_char c :: nat)
      in (9 \<le> n \<and> n \<le> 13) \<or> (28 \<le> n \<and> n \<le> 32) \<or> n = 133 \<or> n = 160)"

definition lstrip :: "string \<Rightarrow> string" where
  "lstrip s = dropWhile is_space s"

definition rstrip :: "string \<Rightarrow> string" where
  "rstrip s = rev (dropWhile is_space (rev s))"

text \<open>\<open>s.strip()\<close>\<close>

definition strip :: "string \<Rightarrow> string" where
  "strip s = rstrip (lstrip s)"

text \<open>\<open>s.startswith(p)\<close>\<close>

definition startswith :: "string \<Rightarrow> string \<Rightarrow> bool" where
  "startswith p s = (take (length p) s = p)"

text \<open>\<open>sub in s\<close> on strings: \<open>sub\<close> occurs somewhere in \<open>s\<close>.\<close>

fun contains :: "string \<Rightarrow> string \<Rightarrow> bool" where
  "contains sub [] = (sub = [])"
| "contains sub (c # cs) = (startswith sub (c # cs) \<or> contains sub cs)"

text \<open>\<open>s.split(d)\<close> for a one-character separator: never empty, \<open>''''.split(d) = ['''']\<close>.\<close>

fun split_on :: "char \<Rightarrow> string \<Rightarrow> string list" where
  "split_on d [] = [[]]"
| "split_on d (c # cs) =
     (if c = d then [] # split_on d cs
      else (case split_on d cs of
              [] \<Rightarrow> [[c]]
            | w # ws \<Rightarrow> (c # w) # ws))"

text \<open>\<open>s.upper()\<close> on the ASCII letters.\<close>

definition upper_char :: "char \<Rightarrow> char" where
  "upper_char c =
     (let n = (of_char c :: nat)
      in if 97 \<le> n \<and> n \<le> 122 then char_of (n - 32) else c)"

definition upper :: "string \<Rightarrow> string" where
  "upper s = map upper_char s"

section \<open>Wikitext section parser\<close>

text \<open>
  The dictionaries appended by \<open>parse_us_springfields_from_wikitext\<close> and
  \<open>parse_us_cities_from_wikitext\<close>: keys \<open>title\<close>, \<open>city\<close>, \<open>state\<close>.
\<close>

record CandidateEntry =
  title :: string
  city :: string
  state :: string

text \<open>
  \<open>re.search(r'\[\[([^\]]+)\]\]', line)\<close>, returning group 1. At a given position the
  pattern matches iff the text starts with two opening brackets, followed by a non-empty
  maximal run of characters other than the closing bracket, followed by two closing
  brackets: the greedy run cannot give back characters, since the character after a
  shorter run is not a closing bracket. \<open>re.search\<close> takes the leftmost position.
\<close>

definition match_link_here :: "string \<Rightarrow> string option" where
  "match_link_here s =
     (if startswith ''[['' s then
        (let body = drop 2 s;
             grp = takeWhile (\<lambda>c. c \<noteq> CHR '']'') body;
             rest = dropWhile (\<lambda>c. c \<noteq> CHR '']'') body
         in if grp \<noteq> [] \<and> startswith '']]'' rest then Some grp else None)
      else None)"

fun re_search_link :: "string \<Rightarrow> string option" where
  "re_search_link [] = None"
| "re_search_link (c # cs) =
     (case match_link_here (c # cs) of
        Some g \<Rightarrow> Some g
      | None \<Rightarrow> re_search_link cs)"

text \<open>
  The body of the loop for a bulleted line of the section (source lines 60 to 85): the
  entry appended for the line, if any.
\<close>

definition parse_entry :: "string \<Rightarrow> CandidateEntry option" where
  "parse_entry line =
     (case re_search_link line of
        None \<Rightarrow> None
      | Some m \<Rightarrow>
          (let entry = (if CHR ''|'' \<in> set m then takeWhile (\<lambda>c. c \<noteq> CHR ''|'') m else m)
           in if CHR '','' \<in> set entry then
                (let location = takeWhile (\<lambda>c. c \<noteq> CHR '','') entry;
                     state_info = strip (tl (dropWhile (\<lambda>c. c \<noteq> CHR '','') entry));
                     state_info =
                       (if CHR ''('' \<in> set state_info
                        then strip (takeWhile (\<lambda>c. c \<noteq> CHR ''('') state_info)
                        else state_info)
                 in Some \<lparr>title = entry, city = location, state = state_info\<rparr>)
              else None))"

text \<open>
  The \<open>for line in lines\<close> loop, with its two variables \<open>in_us_section\<close> and
  \<open>springfields\<close> (\<open>cities\<close> in the general file) passed along; \<open>break\<close> returns the
  list collected so far.
\<close>

fun parse_loop :: "bool \<Rightarrow> CandidateEntry list \<Rightarrow> string list \<Rightarrow> CandidateEntry list" where
  "parse_loop in_us_section springfields [] = springfields"
| "parse_loop in_us_section springfields (line # lines) =
     (if contains ''=== United States ==='' line then parse_loop True springfields lines
      else if in_us_section \<and> startswith ''==='' line then springfields
      else if in_us_section \<and> startswith ''*'' (strip line) then
        (case parse_entry line of
           Some e \<Rightarrow> parse_loop in_us_section (springfields @ [e]) lines
         | None \<Rightarrow> parse_loop in_us_section springfields lines)
      else parse_loop in_us_section springfields lines)"

definition parse_us_springfields_from_wikitext :: "string \<Rightarrow> CandidateEntry list" where
  "parse_us_springfields_from_wikitext content =
     parse_loop False [] (split_on CHR ''\<newline>'' content)"

text \<open>The same function of the general file, translated from its own text.\<close>

fun parse_loop_cities :: "bool \<Rightarrow> CandidateEntry list \<Rightarrow> string list \<Rightarrow> CandidateEntry list" where
  "parse_loop_cities in_us_section cities [] = cities"
| "parse_loop_cities in_us_section cities (line # lines) =
     (if contains ''=== United States ==='' line then parse_loop_cities True cities lines
      else if in_us_section \<and> startswith ''==='' line then cities
      else if in_us_section \<and> startswith ''*'' (strip line) then
        (case parse_entry line of
           Some e \<Rightarrow> parse_loop_cities in_us_section (cities @ [e]) lines
         | None \<Rightarrow> parse_loop_cities in_us_section cities lines)
      else parse_loop_cities in_us_section cities lines)"

definition parse_us_cities_from_wikitext :: "string \<Rightarrow> CandidateEntry list" where
  "parse_us_cities_from_wikitext content =
     parse_loop_cities False [] (split_on CHR ''\<newline>'' content)"

text \<open>
  Whether, after the loop has read \<open>lines\<close>, it is still running with \<open>in_us_section\<close>
  set: the control part of the loop alone.
\<close>

fun section_open :: "bool \<Rightarrow> string list \<Rightarrow> bool" where
  "section_open in_us_section [] = in_us_section"
| "section_open in_us_section (line # lines) =
     (if contains ''=== United States ==='' line then section_open True lines
      else if in_us_section \<and> startswith ''==='' line then False
      else section_open in_us_section lines)"

text \<open>
  The section as the amended C4 words it: the lines after the first line that contains
  the marker, up to the first later line that starts with \<open>===\<close> and does not contain the
  marker.
\<close>

definition us_section_lines :: "string list \<Rightarrow> string list" where
  "us_section_lines lines =
     takeWhile (\<lambda>l. contains ''=== United States ==='' l \<or> \<not> startswith ''==='' l)
       (drop 1 (dropWhile (\<lambda>l. \<not> contains ''=== United States ==='' l) lines))"

text \<open>
  The entries, in order, of the lines among \<open>lines\<close> that are bulleted and do not contain
  the marker.
\<close>

definition bullet_entries :: "string list \<Rightarrow> CandidateEntry list" where
  "bullet_entries lines =
     List.map_filter
       (\<lambda>line. if contains ''=== United States ==='' line then None
               else if startswith ''*'' (strip line) then parse_entry line
               else None) lines"

section \<open>Coordinate resolver\<close>

text \<open>
  The rows built by \<open>get_coordinates_batch\<close>: the candidate's \<open>title\<close>, \<open>city\<close> and
  \<open>state\<close>, then \<open>latitude\<close>, \<open>longitude\<close> and \<open>url\<close>. The type \<open>'f\<close> stands for
  Python's \<open>float\<close>.
\<close>

record 'f ResolvedPlace = CandidateEntry +
  latitude :: 'f
  longitude :: 'f
  url :: string

text \<open>
  Python's float operations are not interpreted: the functions that use them take them
  as a parameter. \<open>to_float s\<close> is \<open>float(s)\<close> (\<open>None\<close> when it raises \<open>ValueError\<close>),
  \<open>fadd\<close> is \<open>+\<close>, \<open>fdiv x n\<close> is \<open>x / n\<close> for an integer literal \<open>n\<close>, \<open>fneg\<close> is
  unary minus.
\<close>

record 'f float_ops =
  to_float :: "string \<Rightarrow> 'f option"
  fadd :: "'f \<Rightarrow> 'f \<Rightarrow> 'f"
  fdiv :: "'f \<Rightarrow> int \<Rightarrow> 'f"
  fneg :: "'f \<Rightarrow> 'f"

text \<open>
  The standard model of rounded arithmetic, for float operations on values read as real
  numbers: each sum and each quotient by a non-zero integer is the exact result with a
  relative error of at most \<open>eps\<close>, and negation is exact. IEEE double arithmetic
  satisfies it with \<open>eps = 2^-53\<close> as long as nothing overflows or underflows.
\<close>

definition rounds_within :: "real \<Rightarrow> real float_ops \<Rightarrow> bool" where
  "rounds_within eps fl =
     ((\<forall>x y. \<bar>fadd fl x y - (x + y)\<bar> \<le> eps * \<bar>x + y\<bar>) \<and>
      (\<forall>x n. n \<noteq> 0 \<longrightarrow> \<bar>fdiv fl x n - x / of_int n\<bar> \<le> eps * \<bar>x / of_int n\<bar>) \<and>
      (\<forall>x. fneg fl x = - x))"

text \<open>
  One element of \<open>page['coordinates']\<close>, and one value of \<open>data['query']['pages']\<close>:
  \<open>page_title\<close> is \<open>page['title']\<close>; \<open>coordinates\<close> and \<open>revisions\<close> are \<open>None\<close> when the
  key is absent; \<open>revisions\<close> holds the \<open>'*'\<close> content of each revision; \<open>canonicalurl\<close>
  is \<open>None\<close> when the key is absent.
\<close>

record 'f coords =
  lat :: 'f
  lon :: 'f

record 'f page =
  page_title :: string
  coordinates :: "'f coords list option"
  revisions :: "string list option"
  canonicalurl :: "string option"

text \<open>
  What one \<open>requests.get\<close> of the batch query gives: a \<open>requests.RequestException\<close>
  (from the call, \<open>raise_for_status\<close> or \<open>json\<close>), a document without
  \<open>data['query']['pages']\<close>, or the pages in the document's order.
\<close>

datatype 'f api_response = RequestException | NoPages | Pages "'f page list"

datatype py_error = IndexError | RequestError | ReadError

text \<open>\<open>"|".join(titles)\<close>\<close>

fun join_pipe :: "string list \<Rightarrow> string" where
  "join_pipe [] = []"
| "join_pipe [t] = t"
| "join_pipe (t # ts) = t @ ''|'' @ join_pipe ts"

text \<open>
  The coordinate template pattern, \<open>{{coord\|\<close> followed by eight groups \<open>([^|}]+)\<close>
  separated by \<open>\|\<close>, under \<open>re.IGNORECASE\<close>. \<open>coord_fields n s\<close> reads \<open>n\<close> such groups
  at the start of \<open>s\<close>: each group is the maximal non-empty run of characters other than
  the bar and the closing brace (a shorter run is followed by a character of the run,
  never by the bar), and all but the last are followed by a bar.
\<close>

definition field_char :: "char \<Rightarrow> bool" where
  "field_char c = (c \<noteq> CHR ''|'' \<and> c \<noteq> CHR ''}'')"

fun coord_fields :: "nat \<Rightarrow> string \<Rightarrow> string list option" where
  "coord_fields 0 s = Some []"
| "coord_fields (Suc n) s =
     (let f = takeWhile field_char s; rest = dropWhile field_char s
      in if f = [] then None
         else if n = 0 then Some [f]
         else (case rest of
                 [] \<Rightarrow> None
               | c # rest' \<Rightarrow>
                   if c = CHR ''|'' then map_option (\<lambda>fs. f # fs) (coord_fields n rest')
                   else None))"

definition coord_match_here :: "string \<Rightarrow> string list option" where
  "coord_match_here s =
     (if upper (take 8 s) = ''{{COORD|'' then coord_fields 8 (drop 8 s) else None)"

fun re_search_coord :: "string \<Rightarrow> string list option" where
  "re_search_coord [] = None"
| "re_search_coord (c # cs) =
     (case coord_match_here (c # cs) of
        Some g \<Rightarrow> Some g
      | None \<Rightarrow> re_search_coord cs)"

text \<open>
  Source lines 140 to 153: the eight groups to a latitude and a longitude; \<open>None\<close> is
  the \<open>ValueError\<close> of a \<open>float(...)\<close>, which the source answers with \<open>continue\<close>.
\<close>

definition dms_to_decimal :: "'f float_ops \<Rightarrow> string list \<Rightarrow> ('f \<times> 'f) option" where
  "dms_to_decimal fl groups =
     (case groups of
        [lat_deg, lat_min, lat_sec, lat_dir, lon_deg, lon_min, lon_sec, lon_dir] \<Rightarrow>
          (case (to_float fl lat_deg, to_float fl lat_min, to_float fl lat_sec,
                 to_float fl lon_deg, to_float fl lon_min, to_float fl lon_sec) of
             (Some a, Some b, Some c, Some d, Some e, Some g) \<Rightarrow>
               (let lat = fadd fl (fadd fl a (fdiv fl b 60)) (fdiv fl c 3600);
                    lon = fadd fl (fadd fl d (fdiv fl e 60)) (fdiv fl g 3600);
                    lat = (if upper lat_dir = ''S'' then fneg fl lat else lat);
                    lon = (if upper lon_dir = ''W'' then fneg fl lon else lon)
                in Some (lat, lon))
           | _ \<Rightarrow> None)
      | _ \<Rightarrow> None)"

text \<open>
  The body of \<open>for page_id, page in ...items()\<close>: \<open>Inl\<close> is an exception that leaves
  \<open>get_coordinates_batch\<close> (only \<open>RequestException\<close> is caught there), \<open>Inr None\<close> a page
  that adds no row, \<open>Inr (Some r)\<close> the appended row.
\<close>

definition process_page ::
  "'f float_ops \<Rightarrow> CandidateEntry list \<Rightarrow> 'f page \<Rightarrow> py_error + 'f ResolvedPlace option" where
  "process_page fl batch page =
     (case find (\<lambda>s. title s = page_title page) batch of
        None \<Rightarrow> Inr None
      | Some original \<Rightarrow>
          (let row = (\<lambda>la lo.
                 \<lparr>title = page_title page, city = city original, state = state original,
                  latitude = la, longitude = lo,
                  url = (case canonicalurl page of None \<Rightarrow> [] | Some u \<Rightarrow> u)\<rparr>)
           in case coordinates page of
                Some cs \<Rightarrow>
                  (case cs of
                     [] \<Rightarrow> Inl IndexError
                   | coords # _ \<Rightarrow> Inr (Some (row (lat coords) (lon coords))))
              | None \<Rightarrow>
                  (case revisions page of
                     Some (content # _) \<Rightarrow>
                       (case re_search_coord content of
                          Some groups \<Rightarrow>
                            (case dms_to_decimal fl groups of
                               Some (la, lo) \<Rightarrow> Inr (Some (row la lo))
                             | None \<Rightarrow> Inr None)
                        | None \<Rightarrow> Inr None)
                   | _ \<Rightarrow> Inr None)))"

fun pages_loop ::
  "'f float_ops \<Rightarrow> CandidateEntry list \<Rightarrow> 'f page list \<Rightarrow> 'f ResolvedPlace list \<Rightarrow>
   py_error + 'f ResolvedPlace list" where
  "pages_loop fl batch [] results = Inr results"
| "pages_loop fl batch (page # pages) results =
     (case process_page fl batch page of
        Inl e \<Rightarrow> Inl e
      | Inr None \<Rightarrow> pages_loop fl batch pages results
      | Inr (Some r) \<Rightarrow> pages_loop fl batch pages (results @ [r]))"

text \<open>\<open>range(0, n, 50)\<close>\<close>

definition batch_starts :: "nat \<Rightarrow> nat list" where
  "batch_starts n = map (\<lambda>k. k * 50) [0..<(n + 49) div 50]"

text \<open>
  The loop over the batches. \<open>http i titles\<close> is the answer to the request made for the
  batch that starts at index \<open>i\<close>, whose \<open>titles\<close> parameter is the joined titles.
\<close>

fun batch_loop ::
  "'f float_ops \<Rightarrow> (nat \<Rightarrow> string \<Rightarrow> 'f api_response) \<Rightarrow> CandidateEntry list \<Rightarrow> nat list \<Rightarrow>
   'f ResolvedPlace list \<Rightarrow> py_error + 'f ResolvedPlace list" where
  "batch_loop fl http springfields [] results = Inr results"
| "batch_loop fl http springfields (i # starts) results =
     (let batch = take 50 (drop i springfields);
          titles = map title batch
      in case http i (join_pipe titles) of
           RequestException \<Rightarrow> batch_loop fl http springfields starts results
         | NoPages \<Rightarrow> batch_loop fl http springfields starts results
         | Pages pages \<Rightarrow>
             (case pages_loop fl batch pages results of
                Inl e \<Rightarrow> Inl e
              | Inr results' \<Rightarrow> batch_loop fl http springfields starts results'))"

definition get_coordinates_batch ::
  "'f float_ops \<Rightarrow> (nat \<Rightarrow> string \<Rightarrow> 'f api_response) \<Rightarrow> CandidateEntry list \<Rightarrow>
   py_error + 'f ResolvedPlace list" where
  "get_coordinates_batch fl http springfields =
     batch_loop fl http springfields (batch_starts (length springfields)) []"

text \<open>The function of the same name in the general file, from its own text.\<close>

fun batch_loop_general ::
  "'f float_ops \<Rightarrow> (nat \<Rightarrow> string \<Rightarrow> 'f api_response) \<Rightarrow> CandidateEntry list \<Rightarrow> nat list \<Rightarrow>
   'f ResolvedPlace list \<Rightarrow> py_error + 'f ResolvedPlace list" where
  "batch_loop_general fl http cities [] results = Inr results"
| "batch_loop_general fl http cities (i # starts) results =
     (let batch = take 50 (drop i cities);
          titles = map title batch
      in case http i (join_pipe titles) of
           RequestException \<Rightarrow> batch_loop_general fl http cities starts results
         | NoPages \<Rightarrow> batch_loop_general fl http cities starts results
         | Pages pages \<Rightarrow>
             (case pages_loop fl batch pages results of
                Inl e \<Rightarrow> Inl e
              | Inr results' \<Rightarrow> batch_loop_general fl http cities starts results'))"

definition get_coordinates_batch_general ::
  "'f float_ops \<Rightarrow> (nat \<Rightarrow> string \<Rightarrow> 'f api_response) \<Rightarrow> CandidateEntry list \<Rightarrow>
   py_error + 'f ResolvedPlace list" where
  "get_coordinates_batch_general fl http cities =
     batch_loop_general fl http cities (batch_starts (length cities)) []"

section \<open>Spatial joiner\<close>

text \<open>
  A row of the GeoDataFrame built from the resolver's table: its columns and the point
  \<open>geometry\<close>. Geometry is not interpreted: \<open>'p\<close> is the type of points, \<open>'g\<close> the type of
  polygons, and the joins take the predicate \<open>is_within\<close> (\<open>predicate='within'\<close>) as a parameter.
\<close>

record ('f, 'p) GeoRow = "'f ResolvedPlace" +
  geometry :: 'p

text \<open>A row of the boundary file: the columns \<open>NAME\<close>, \<open>STUSPS\<close> and its geometry.\<close>

record 'g StatePolygon =
  NAME :: string
  STUSPS :: string
  state_geometry :: 'g

text \<open>
  A row of \<open>joined\<close>. The column \<open>state\<close> is the one the source renames to
  \<open>state_from_wiki\<close>; \<open>index_right\<close>, \<open>state_name\<close> and \<open>state_abbrev\<close> are \<open>None\<close> where
  the left join found no polygon.
\<close>

record ('f, 'p) JoinedPlace = "('f, 'p) GeoRow" +
  index_right :: "nat option"
  state_name :: "string option"
  state_abbrev :: "string option"
  state_match :: bool

text \<open>
  The cache directory and file as the two \<open>os.path.exists\<close> tests see them, and the
  answers received so far to the \<open>requests.get(url)\<close> of the boundary file (\<open>None\<close> for a
  request that raised, \<open>Some c\<close> for a response with content \<open>c\<close>). File system calls are
  taken to succeed.
\<close>

record 'b cache =
  data_dir :: bool
  zip_file :: "'b option"
  requests :: "'b option list"

text \<open>
  Source lines 208 to 216. \<open>net k\<close> is what the request answers when \<open>k\<close> requests have
  been made before it. An exception of \<open>requests.get\<close> is not caught and leaves the
  function before the file is opened.
\<close>

definition fetch_states_zip ::
  "(nat \<Rightarrow> 'b option) \<Rightarrow> 'b cache \<Rightarrow> (py_error + unit) \<times> 'b cache" where
  "fetch_states_zip net w =
     (let w = (if \<not> data_dir w then w\<lparr>data_dir := True\<rparr> else w)
      in if zip_file w = None then
           (case net (length (requests w)) of
              None \<Rightarrow> (Inl RequestError, w\<lparr>requests := requests w @ [None]\<rparr>)
            | Some content \<Rightarrow>
                (Inr (), w\<lparr>requests := requests w @ [Some content], zip_file := Some content\<rparr>))
         else (Inr (), w))"

text \<open>The number of requests, and of completed downloads, recorded in a cache state.\<close>

definition requests_issued :: "'b cache \<Rightarrow> nat" where
  "requests_issued w = length (requests w)"

definition downloads :: "'b cache \<Rightarrow> nat" where
  "downloads w = length (filter (\<lambda>r. r \<noteq> None) (requests w))"

text \<open>
  The lambda of \<open>joined.apply\<close>: \<open>None\<close> is a null cell (\<open>pd.notnull\<close> is false of it).
\<close>

definition state_match_of :: "string option \<Rightarrow> string option \<Rightarrow> bool" where
  "state_match_of state_from_wiki state_name' =
     (if state_from_wiki \<noteq> None \<and> state_name' \<noteq> None
      then strip (the state_from_wiki) = strip (the state_name')
      else False)"

text \<open>
  \<open>gpd.sjoin(left, right, how='left', predicate='within')\<close>: every left row is kept, once
  for each right row whose polygon it is within, and once with no partner when there is
  none. The right rows carry their index in the boundary file.
\<close>

definition sjoin_left ::
  "('p \<Rightarrow> 'g \<Rightarrow> bool) \<Rightarrow> ('f, 'p) GeoRow list \<Rightarrow> (nat \<times> 'g StatePolygon) list \<Rightarrow>
   (('f, 'p) GeoRow \<times> (nat \<times> 'g StatePolygon) option) list" where
  "sjoin_left is_within left right =
     concat (map (\<lambda>r.
       (case filter (\<lambda>(i, s). is_within (geometry r) (state_geometry s)) right of
          [] \<Rightarrow> [(r, None)]
        | ms \<Rightarrow> map (\<lambda>m. (r, Some m)) ms)) left)"

text \<open>The joined row with its \<open>state_match\<close> cell (source lines 242 to 247).\<close>

definition joined_row ::
  "('f, 'p) GeoRow \<times> (nat \<times> 'g StatePolygon) option \<Rightarrow> ('f, 'p) JoinedPlace" where
  "joined_row x =
     (case x of (r, m) \<Rightarrow>
        \<lparr>title = title r, city = city r, state = state r,
         latitude = latitude r, longitude = longitude r, url = url r,
         geometry = geometry r,
         index_right = map_option fst m,
         state_name = map_option (\<lambda>(i, s). NAME s) m,
         state_abbrev = map_option (\<lambda>(i, s). STUSPS s) m,
         state_match = state_match_of (Some (state r)) (map_option (\<lambda>(i, s). NAME s) m)\<rparr>)"

text \<open>
  \<open>join_springfields_to_states\<close>. \<open>read_file\<close> is \<open>gpd.read_file\<close> followed by \<open>to_crs\<close> on
  the cached content (\<open>None\<close> when the file cannot be read); the result is the table
  \<open>joined\<close> and the cache state left behind. The table is described row by row; what
  \<open>joined.apply\<close> returns for a table without rows depends on the pandas version and is
  not modelled.
\<close>

definition join_springfields_to_states ::
  "('p \<Rightarrow> 'g \<Rightarrow> bool) \<Rightarrow> ('b \<Rightarrow> 'g StatePolygon list option) \<Rightarrow> (nat \<Rightarrow> 'b option) \<Rightarrow>
   'b cache \<Rightarrow> ('f, 'p) GeoRow list \<Rightarrow> (py_error + ('f, 'p) JoinedPlace list) \<times> 'b cache" where
  "join_springfields_to_states is_within read_file net w springfields_gdf =
     (case fetch_states_zip net w of
        (Inl e, w') \<Rightarrow> (Inl e, w')
      | (Inr u, w') \<Rightarrow>
          (case read_file (the (zip_file w')) of
             None \<Rightarrow> (Inl ReadError, w')
           | Some states_gdf \<Rightarrow>
               (let states_gdf = enumerate 0 states_gdf
                in (Inr (map joined_row (sjoin_left is_within springfields_gdf states_gdf)), w'))))"

text \<open>
  \<open>join_cities_to_states\<close> of the general file: the same, with the rows of Alaska,
  Hawaii and Puerto Rico filtered out of the boundary table before the join.
\<close>

definition join_cities_to_states ::
  "('p \<Rightarrow> 'g \<Rightarrow> bool) \<Rightarrow> ('b \<Rightarrow> 'g StatePolygon list option) \<Rightarrow> (nat \<Rightarrow> 'b option) \<Rightarrow>
   'b cache \<Rightarrow> ('f, 'p) GeoRow list \<Rightarrow> (py_error + ('f, 'p) JoinedPlace list) \<times> 'b cache" where
  "join_cities_to_states is_within read_file net w cities_gdf =
     (case fetch_states_zip net w of
        (Inl e, w') \<Rightarrow> (Inl e, w')
      | (Inr u, w') \<Rightarrow>
          (case read_file (the (zip_file w')) of
             None \<Rightarrow> (Inl ReadError, w')
           | Some states_gdf \<Rightarrow>
               (let states_gdf = enumerate 0 states_gdf;
                    states_gdf = filter (\<lambda>(i, s). STUSPS s \<notin> set [''AK'', ''HI'', ''PR'']) states_gdf
                in (Inr (map joined_row (sjoin_left is_within cities_gdf states_gdf)), w'))))"

section \<open>Distribution analyzer\<close>

text \<open>
  \<open>groupby(['state_name', 'state_abbrev']).size().reset_index(name='count')\<close>: pandas
  drops the rows with a null in a key column (\<open>dropna=True\<close>, the default), takes the
  distinct keys in sorted order (\<open>sort=True\<close>, the default) and counts the rows of each.
\<close>

definition group_keys :: "('f, 'p) JoinedPlace list \<Rightarrow> (string \<times> string) list" where
  "group_keys joined_gdf =
     List.map_filter (\<lambda>r.
       (case (state_name r, state_abbrev r) of
          (Some n, Some a) \<Rightarrow> Some (n, a)
        | _ \<Rightarrow> None)) joined_gdf"

definition groupby_size :: "('f, 'p) JoinedPlace list \<Rightarrow> ((string \<times> string) \<times> nat) list" where
  "groupby_size joined_gdf =
     (let keys = group_keys joined_gdf
      in map (\<lambda>k. (k, count_list keys k)) (sort (remdups keys)))"

text \<open>
  \<open>sort_values('count', ascending=False)\<close>: decreasing count, rows of equal count
  staying in their key order.
\<close>

definition analyze_springfield_distribution ::
  "('f, 'p) JoinedPlace list \<Rightarrow> ((string \<times> string) \<times> nat) list" where
  "analyze_springfield_distribution joined_gdf =
     (let state_counts = groupby_size joined_gdf;
          state_counts = sort_key (\<lambda>r. - int (snd r)) state_counts
      in state_counts)"

definition analyze_cities_distribution ::
  "('f, 'p) JoinedPlace list \<Rightarrow> ((string \<times> string) \<times> nat) list" where
  "analyze_cities_distribution joined_gdf =
     (let state_counts = groupby_size joined_gdf;
          state_counts = sort_key (\<lambda>r. - int (snd r)) state_counts
      in state_counts)"

section \<open>Example inputs\<close>

text \<open>
  Small concrete inputs for the examples below: a boundary table of two states whose
  polygons are lists of points, with membership as the \<open>within\<close> predicate; a place
  with a given wiki state label at a given point; an empty and a filled cache; and an
  instance of the float operations with exact rational arithmetic that reads unsigned
  decimal integers only.
\<close>

definition example_states :: "nat list StatePolygon list" where
  "example_states =
     [\<lparr>NAME = ''Ohio'', STUSPS = ''OH'', state_geometry = [1]\<rparr>,
      \<lparr>NAME = ''Alaska'', STUSPS = ''AK'', state_geometry = [2]\<rparr>]"

definition example_within :: "nat \<Rightarrow> nat list \<Rightarrow> bool" where
  "example_within p g = (p \<in> set g)"

definition example_place :: "string \<Rightarrow> nat \<Rightarrow> (rat, nat) GeoRow" where
  "example_place s p =
     \<lparr>title = ''Springfield, '' @ s, city = ''Springfield'', state = s,
      latitude = 0, longitude = 0, url = [], geometry = p\<rparr>"

definition empty_cache :: "nat list StatePolygon list cache" where
  "empty_cache = \<lparr>data_dir = False, zip_file = None, requests = []\<rparr>"

definition filled_cache :: "nat list StatePolygon list cache" where
  "filled_cache =
     \<lparr>data_dir = True, zip_file = Some example_states, requests = [Some example_states]\<rparr>"

definition example_joined ::
  "string \<Rightarrow> nat \<Rightarrow> (nat \<times> string \<times> string) option \<Rightarrow> bool \<Rightarrow> (rat, nat) JoinedPlace" where
  "example_joined s p m b =
     \<lparr>title = ''Springfield, '' @ s, city = ''Springfield'', state = s,
      latitude = 0, longitude = 0, url = [], geometry = p,
      index_right = map_option fst m,
      state_name = map_option (\<lambda>(i, n, a). n) m,
      state_abbrev = map_option (\<lambda>(i, n, a). a) m,
      state_match = b\<rparr>"

definition example_entry :: CandidateEntry where
  "example_entry = \<lparr>title = ''Springfield, Ohio'', city = ''Springfield'', state = ''Ohio''\<rparr>"

definition example_page :: "rat page" where
  "example_page =
     \<lparr>page_title = ''Springfield, Ohio'', coordinates = Some [],
      revisions = None, canonicalurl = None\<rparr>"

fun digits_value :: "nat \<Rightarrow> string \<Rightarrow> nat option" where
  "digits_value acc [] = Some acc"
| "digits_value acc (c # cs) =
     (let n = (of_char c :: nat)
      in if 48 \<le> n \<and> n \<le> 57 then digits_value (10 * acc + (n - 48)) cs else None)"

definition exact_ops :: "rat float_ops" where
  "exact_ops =
     \<lparr>to_float = (\<lambda>s. if s = [] then None else map_option of_nat (digits_value 0 s)),
      fadd = (\<lambda>x y. x + y),
      fdiv = (\<lambda>x n. x / of_int n),
      fneg = (\<lambda>x. - x)\<rparr>"

text \<open>
  The same operations on real numbers, and a page without structured coordinates whose
  first revision is the coordinate template of the specification's example.
\<close>

definition exact_real_ops :: "real float_ops" where
  "exact_real_ops =
     \<lparr>to_float = (\<lambda>s. if s = [] then None else map_option of_nat (digits_value 0 s)),
      fadd = (\<lambda>x y. x + y),
      fdiv = (\<lambda>x n. x / of_int n),
      fneg = (\<lambda>x. - x)\<rparr>"

definition template_page :: "real page" where
  "template_page =
     \<lparr>page_title = ''Springfield, Ohio'', coordinates = None,
      revisions = Some [''{{coord|39|55|0|N|83|48|0|W}}''], canonicalurl = None\<rparr>"

section \<open>Facts about the string operations\<close>

lemma rstrip_Cons: "\<not> is_space c \<Longrightarrow> rstrip (c # cs) = c # rstrip cs"
  by (auto simp: rstrip_def dropWhile_append)

lemma rstrip_last: "rstrip s = [] \<or> \<not> is_space (last (rstrip s))"
proof (cases "dropWhile is_space (rev s)")
  case Nil
  then show ?thesis by (simp add: rstrip_def)
next
  case (Cons a as)
  then have "\<not> is_space a" using hd_dropWhile [of is_space "rev s"] by simp
  with Cons show ?thesis by (simp add: rstrip_def)
qed

lemma lstrip_hd: "lstrip s = [] \<or> \<not> is_space (hd (lstrip s))"
  using hd_dropWhile [of is_space s] by (auto simp: lstrip_def)

lemma strip_ends: "strip s = [] \<or> (\<not> is_space (hd (strip s)) \<and> \<not> is_space (last (strip s)))"
proof (cases "lstrip s")
  case Nil
  then show ?thesis by (simp add: strip_def rstrip_def)
next
  case (Cons c cs)
  then have c: "\<not> is_space c" using lstrip_hd [of s] by simp
  then have "strip s = c # rstrip cs" by (simp add: strip_def Cons rstrip_Cons)
  moreover have "rstrip (lstrip s) = [] \<or> \<not> is_space (last (rstrip (lstrip s)))"
    by (rule rstrip_last)
  ultimately show ?thesis using c by (simp add: strip_def)
qed

lemma strip_subset: "set (strip s) \<subseteq> set s"
proof -
  have "set (rstrip t) \<subseteq> set t" for t
    using set_dropWhileD [of _ is_space "rev t"] by (auto simp: rstrip_def)
  moreover have "set (lstrip s) \<subseteq> set s"
    using set_dropWhileD [of _ is_space s] by (auto simp: lstrip_def)
  ultimately show ?thesis unfolding strip_def by blast
qed

lemma strip_hd_star:
  assumes "startswith ''*'' (strip s)"
  shows "\<exists>ws rest. s = ws @ CHR ''*'' # rest \<and> (\<forall>c \<in> set ws. is_space c)"
proof -
  from assms obtain t where t: "strip s = CHR ''*'' # t"
    by (cases "strip s") (auto simp: startswith_def)
  then obtain u where u: "lstrip s = CHR ''*'' # u"
    using rstrip_Cons lstrip_hd [of s]
    by (cases "lstrip s") (auto simp: strip_def rstrip_def)
  have "s = takeWhile is_space s @ dropWhile is_space s" by simp
  with u have "s = takeWhile is_space s @ CHR ''*'' # u" by (simp add: lstrip_def)
  moreover have "\<forall>c \<in> set (takeWhile is_space s). is_space c"
    by (auto dest: set_takeWhileD)
  ultimately show ?thesis by blast
qed

lemma bullet_not_heading:
  assumes "startswith ''*'' (strip s)"
  shows "\<not> startswith ''==='' s"
proof -
  from strip_hd_star [OF assms] obtain ws rest
    where s: "s = ws @ CHR ''*'' # rest" and ws: "\<forall>c \<in> set ws. is_space c" by blast
  show ?thesis
  proof (cases ws)
    case Nil
    with s show ?thesis by (simp add: startswith_def)
  next
    case (Cons w ws')
    with ws have "is_space w" by simp
    then have "w \<noteq> CHR ''=''" by (auto simp: is_space_def)
    with s Cons show ?thesis by (auto simp: startswith_def)
  qed
qed

lemma parse_loop_cities_eq: "parse_loop_cities b acc ls = parse_loop b acc ls"
  by (induction ls arbitrary: b acc) (simp_all split: option.splits)

lemma parse_cities_eq:
  "parse_us_cities_from_wikitext content = parse_us_springfields_from_wikitext content"
  by (simp add: parse_us_cities_from_wikitext_def parse_us_springfields_from_wikitext_def
      parse_loop_cities_eq)

lemma parse_loop_in_section:
  "parse_loop True acc ls =
   acc @ bullet_entries
           (takeWhile (\<lambda>l. contains ''=== United States ==='' l \<or> \<not> startswith ''==='' l) ls)"
proof (induction ls arbitrary: acc)
  case Nil
  show ?case by (simp add: bullet_entries_def List.map_filter_simps)
next
  case (Cons l ls)
  have IH: "parse_loop True acc' ls =
     acc' @ bullet_entries
           (takeWhile (\<lambda>l. contains ''=== United States ==='' l \<or> \<not> startswith ''==='' l) ls)"
    for acc'
    by (rule Cons.IH)
  show ?case
    by (simp add: IH bullet_entries_def List.map_filter_simps split: option.splits)
qed

lemma parse_loop_before_section:
  "parse_loop False acc ls = acc @ bullet_entries (us_section_lines ls)"
proof (induction ls)
  case Nil
  show ?case by (simp add: us_section_lines_def bullet_entries_def List.map_filter_simps)
next
  case (Cons l ls)
  show ?case
  proof (cases "contains ''=== United States ==='' l")
    case True
    then show ?thesis
      using parse_loop_in_section [of acc ls] by (simp add: us_section_lines_def)
  next
    case False
    then show ?thesis
      using Cons.IH by (simp add: us_section_lines_def)
  qed
qed

lemma parse_loop_section_open:
  "section_open b xs \<Longrightarrow> parse_loop b acc (xs @ ls) = parse_loop True (parse_loop b acc xs) ls"
proof (induction xs arbitrary: b acc)
  case Nil
  then show ?case by simp
next
  case (Cons x xs)
  then show ?case by (auto split: option.splits if_splits)
qed

lemma pipe_trim_eq:
  "(if CHR ''|'' \<in> set m then takeWhile (\<lambda>c. c \<noteq> CHR ''|'') m else m) =
   takeWhile (\<lambda>c. c \<noteq> CHR ''|'') m"
  by (induction m) auto

lemma parse_entry_eq:
  "parse_entry line =
     (case re_search_link line of
        None \<Rightarrow> None
      | Some m \<Rightarrow>
          if CHR '','' \<in> set (takeWhile (\<lambda>c. c \<noteq> CHR ''|'') m) then
            Some \<lparr>title = takeWhile (\<lambda>c. c \<noteq> CHR ''|'') m,
                  city = takeWhile (\<lambda>c. c \<noteq> CHR '','') (takeWhile (\<lambda>c. c \<noteq> CHR ''|'') m),
                  state =
                    (let r = tl (dropWhile (\<lambda>c. c \<noteq> CHR '','') (takeWhile (\<lambda>c. c \<noteq> CHR ''|'') m))
                     in if CHR ''('' \<in> set (strip r)
                        then strip (takeWhile (\<lambda>c. c \<noteq> CHR ''('') (strip r))
                        else strip r)\<rparr>
          else None)"
  unfolding parse_entry_def pipe_trim_eq by (simp add: Let_def split: option.splits)

lemma parse_entry_no_comma:
  "re_search_link l = Some m \<Longrightarrow> CHR '','' \<notin> set (takeWhile (\<lambda>c. c \<noteq> CHR ''|'') m) \<Longrightarrow>
   parse_entry l = None"
  by (simp add: parse_entry_eq)

lemma clean_state_ok:
  fixes r :: string
  defines "s \<equiv> (if CHR ''('' \<in> set (strip r)
                  then strip (takeWhile (\<lambda>c. c \<noteq> CHR ''('') (strip r))
                  else strip r)"
  shows "CHR ''('' \<notin> set s \<and> (s = [] \<or> (\<not> is_space (hd s) \<and> \<not> is_space (last s)))"
proof -
  have no: "CHR ''('' \<notin> set (strip (takeWhile (\<lambda>c. c \<noteq> CHR ''('') t))" for t
    using strip_subset [of "takeWhile (\<lambda>c. c \<noteq> CHR ''('') t"] by (auto dest: set_takeWhileD)
  show ?thesis
  proof (cases "CHR ''('' \<in> set (strip r)")
    case True
    then have "s = strip (takeWhile (\<lambda>c. c \<noteq> CHR ''('') (strip r))" by (simp add: s_def)
    then show ?thesis using no [of "strip r"] strip_ends [of "takeWhile (\<lambda>c. c \<noteq> CHR ''('') (strip r)"]
      by simp
  next
    case False
    then have "s = strip r" by (simp add: s_def)
    then show ?thesis using False strip_ends [of r] by simp
  qed
qed

lemma parse_entry_state:
  assumes "parse_entry l = Some e"
  shows "CHR ''('' \<notin> set (state e) \<and>
         (state e = [] \<or> (\<not> is_space (hd (state e)) \<and> \<not> is_space (last (state e))))"
proof -
  from assms obtain m where
    e: "e = \<lparr>title = takeWhile (\<lambda>c. c \<noteq> CHR ''|'') m,
                  city = takeWhile (\<lambda>c. c \<noteq> CHR '','') (takeWhile (\<lambda>c. c \<noteq> CHR ''|'') m),
                  state =
                    (let r = tl (dropWhile (\<lambda>c. c \<noteq> CHR '','') (takeWhile (\<lambda>c. c \<noteq> CHR ''|'') m))
                     in if CHR ''('' \<in> set (strip r)
                        then strip (takeWhile (\<lambda>c. c \<noteq> CHR ''('') (strip r))
                        else strip r)\<rparr>"
    unfolding parse_entry_eq by (auto split: option.splits if_splits)
  show ?thesis
    unfolding e Let_def CandidateEntry.simps by (rule clean_state_ok)
qed

lemma parse_loop_state:
  assumes "\<forall>e \<in> set acc. P e" "\<And>l e. parse_entry l = Some e \<Longrightarrow> P e"
  shows "\<forall>e \<in> set (parse_loop b acc ls). P e"
  using assms(1)
proof (induction ls arbitrary: b acc)
  case Nil
  then show ?case by simp
next
  case (Cons l ls)
  show ?case
  proof (cases "parse_entry l")
    case None
    then show ?thesis using Cons.IH [of acc] Cons.prems by simp
  next
    case (Some e)
    then have "\<forall>e \<in> set (acc @ [e]). P e" using Cons.prems assms(2) by auto
    then have "\<forall>x \<in> set (parse_loop b' (acc @ [e]) ls). P x" for b'
      by (rule Cons.IH)
    then show ?thesis using Some Cons.IH [of acc] Cons.prems by simp
  qed
qed


section \<open>Claims about the parser\<close>

text \<open>
  C3, as the code has it. A bulleted line read inside the section, not containing the
  heading marker, whose first link has a pipe-trimmed title \<open>l @ '','' @ r\<close> with no comma
  in \<open>l\<close>, appends exactly one entry (in the loop of either file): the title is the
  pipe-trimmed title, the city is
  \<open>l\<close> as it stands (it is not trimmed), and the state is \<open>r\<close> trimmed, cut at its first
  opening parenthesis when it has one and trimmed again.
\<close>

theorem comma_split_entry:
  assumes "\<not> contains ''=== United States ==='' line"
    and "startswith ''*'' (strip line)"
    and "re_search_link line = Some m"
    and "takeWhile (\<lambda>c. c \<noteq> CHR ''|'') m = l @ CHR '','' # r"
    and "CHR '','' \<notin> set l"
  shows "parse_loop True acc (line # lines) =
         parse_loop True
           (acc @ [\<lparr>title = l @ CHR '','' # r, city = l,
                    state = (if CHR ''('' \<in> set (strip r)
                             then strip (takeWhile (\<lambda>c. c \<noteq> CHR ''('') (strip r))
                             else strip r)\<rparr>]) lines \<and>
         parse_loop_cities True acc (line # lines) =
         parse_loop_cities True
           (acc @ [\<lparr>title = l @ CHR '','' # r, city = l,
                    state = (if CHR ''('' \<in> set (strip r)
                             then strip (takeWhile (\<lambda>c. c \<noteq> CHR ''('') (strip r))
                             else strip r)\<rparr>]) lines"
proof -
  have tw: "takeWhile (\<lambda>c. c \<noteq> CHR '','') (l @ CHR '','' # r) = l"
    using assms(5) by (induction l) auto
  have dw: "dropWhile (\<lambda>c. c \<noteq> CHR '','') (l @ CHR '','' # r) = CHR '','' # r"
    using assms(5) by (induction l) auto
  have "parse_entry line = Some \<lparr>title = l @ CHR '','' # r, city = l,
                    state = (if CHR ''('' \<in> set (strip r)
                             then strip (takeWhile (\<lambda>c. c \<noteq> CHR ''('') (strip r))
                             else strip r)\<rparr>"
    unfolding parse_entry_eq assms(3) using assms(4) tw dw by (simp add: Let_def)
  then have "parse_loop True acc (line # lines) =
         parse_loop True
           (acc @ [\<lparr>title = l @ CHR '','' # r, city = l,
                    state = (if CHR ''('' \<in> set (strip r)
                             then strip (takeWhile (\<lambda>c. c \<noteq> CHR ''('') (strip r))
                             else strip r)\<rparr>]) lines"
    using assms(1,2) bullet_not_heading [OF assms(2)] by simp
  then show ?thesis by (simp only: parse_loop_cities_eq)
qed

theorem comma_split_entry_witness:
  "\<not> contains ''=== United States ==='' ''* [[Springfield, Ohio (town)|Springfield]]'' \<and>
   startswith ''*'' (strip ''* [[Springfield, Ohio (town)|Springfield]]'') \<and>
   re_search_link ''* [[Springfield, Ohio (town)|Springfield]]'' =
     Some ''Springfield, Ohio (town)|Springfield'' \<and>
   takeWhile (\<lambda>c. c \<noteq> CHR ''|'') ''Springfield, Ohio (town)|Springfield'' =
     ''Springfield'' @ CHR '','' # '' Ohio (town)'' \<and>
   CHR '','' \<notin> set ''Springfield'' \<and>
   parse_loop True [] [''* [[Springfield, Ohio (town)|Springfield]]''] =
     [\<lparr>title = ''Springfield, Ohio (town)'', city = ''Springfield'', state = ''Ohio''\<rparr>]"
proof -
  have h1: "\<not> contains ''=== United States ==='' ''* [[Springfield, Ohio (town)|Springfield]]''"
    by code_simp
  have h2: "startswith ''*'' (strip ''* [[Springfield, Ohio (town)|Springfield]]'')"
    by code_simp
  have h3: "re_search_link ''* [[Springfield, Ohio (town)|Springfield]]'' =
     Some ''Springfield, Ohio (town)|Springfield''"
    by code_simp
  have h4: "takeWhile (\<lambda>c. c \<noteq> CHR ''|'') ''Springfield, Ohio (town)|Springfield'' =
     ''Springfield'' @ CHR '','' # '' Ohio (town)''"
    by simp
  have h5: "CHR '','' \<notin> set ''Springfield''"
    by simp
  have s1: "strip '' Ohio (town)'' = ''Ohio (town)''"
    by code_simp
  have s2: "strip ''Ohio '' = ''Ohio''"
    by code_simp
  have "parse_loop True [] [''* [[Springfield, Ohio (town)|Springfield]]''] =
     [\<lparr>title = ''Springfield, Ohio (town)'', city = ''Springfield'', state = ''Ohio''\<rparr>]"
    using comma_split_entry [OF h1 h2 h3 h4 h5, of "[]" "[]"] by (simp add: s1 s2)
  with h1 h2 h3 h4 h5 show ?thesis by blast
qed

text \<open>
  C3 as stated fails: the city of \<open>[[Springfield , Ohio]]\<close> keeps its trailing blank,
  while the state is trimmed.
\<close>

theorem city_not_trimmed_counterexample:
  "parse_us_springfields_from_wikitext
     ''=== United States ===\<newline>* [[Springfield , Ohio]]'' =
     [\<lparr>title = ''Springfield , Ohio'', city = ''Springfield '', state = ''Ohio''\<rparr>] \<and>
   strip ''Springfield '' \<noteq> ''Springfield ''"
  by code_simp

text \<open>
  C4, as the code has it. For every markup, the parser (of either file) returns exactly
  the entries, in order, of the bulleted lines of the section that do not themselves
  contain the text \<open>=== United States ===\<close>, where the section (\<open>us_section_lines\<close>)
  starts after the first line containing that text and ends before the first later
  line that starts with \<open>===\<close> and does not contain it. A line containing the text is
  skipped, and with no such line in the markup the result is empty.
\<close>

theorem section_bounds:
  "parse_us_springfields_from_wikitext content =
     bullet_entries (us_section_lines (split_on CHR ''\<newline>'' content)) \<and>
   parse_us_cities_from_wikitext content =
     bullet_entries (us_section_lines (split_on CHR ''\<newline>'' content))"
proof -
  have "parse_us_springfields_from_wikitext content =
     bullet_entries (us_section_lines (split_on CHR ''\<newline>'' content))"
    by (simp add: parse_us_springfields_from_wikitext_def parse_loop_before_section)
  then show ?thesis by (simp only: parse_cities_eq)
qed

theorem section_bounds_witness:
  "us_section_lines (split_on CHR ''\<newline>''
     ''== Places ==\<newline>=== United States ===\<newline>* [[Springfield, Kansas]] === United States ===\<newline>* [[Springfield, Ohio]]\<newline>=== Canada ===\<newline>* [[Springfield, Ontario]]'') =
     [''* [[Springfield, Kansas]] === United States ==='', ''* [[Springfield, Ohio]]''] \<and>
   bullet_entries
     [''* [[Springfield, Kansas]] === United States ==='', ''* [[Springfield, Ohio]]''] =
     [\<lparr>title = ''Springfield, Ohio'', city = ''Springfield'', state = ''Ohio''\<rparr>] \<and>
   parse_us_springfields_from_wikitext
     ''== Places ==\<newline>=== United States ===\<newline>* [[Springfield, Kansas]] === United States ===\<newline>* [[Springfield, Ohio]]\<newline>=== Canada ===\<newline>* [[Springfield, Ontario]]'' =
     [\<lparr>title = ''Springfield, Ohio'', city = ''Springfield'', state = ''Ohio''\<rparr>]"
proof -
  have h1: "us_section_lines (split_on CHR ''\<newline>''
     ''== Places ==\<newline>=== United States ===\<newline>* [[Springfield, Kansas]] === United States ===\<newline>* [[Springfield, Ohio]]\<newline>=== Canada ===\<newline>* [[Springfield, Ontario]]'') =
     [''* [[Springfield, Kansas]] === United States ==='', ''* [[Springfield, Ohio]]'']"
    by code_simp
  have h2: "bullet_entries
     [''* [[Springfield, Kansas]] === United States ==='', ''* [[Springfield, Ohio]]''] =
     [\<lparr>title = ''Springfield, Ohio'', city = ''Springfield'', state = ''Ohio''\<rparr>]"
    by code_simp
  have "parse_us_springfields_from_wikitext
     ''== Places ==\<newline>=== United States ===\<newline>* [[Springfield, Kansas]] === United States ===\<newline>* [[Springfield, Ohio]]\<newline>=== Canada ===\<newline>* [[Springfield, Ontario]]'' =
     [\<lparr>title = ''Springfield, Ohio'', city = ''Springfield'', state = ''Ohio''\<rparr>]"
    using section_bounds [of "''== Places ==\<newline>=== United States ===\<newline>* [[Springfield, Kansas]] === United States ===\<newline>* [[Springfield, Ohio]]\<newline>=== Canada ===\<newline>* [[Springfield, Ontario]]''", THEN conjunct1]
    by (simp only: h1 h2)
  with h1 h2 show ?thesis by blast
qed

text \<open>
  C4 as stated fails. A second-level heading after the section does not end collection
  (the entry below \<open>== Canada ==\<close> is returned), and a fourth-level heading
  \<open>==== United States ====\<close> starts collection, since the test is that the line contains
  the marker.
\<close>

theorem section_bounds_counterexample:
  "parse_us_springfields_from_wikitext
     ''=== United States ===\<newline>* [[Springfield, Ohio]]\<newline>== Canada ==\<newline>* [[Springfield, Ontario]]'' =
     [\<lparr>title = ''Springfield, Ohio'', city = ''Springfield'', state = ''Ohio''\<rparr>,
      \<lparr>title = ''Springfield, Ontario'', city = ''Springfield'', state = ''Ontario''\<rparr>] \<and>
   parse_us_springfields_from_wikitext
     ''==== United States ====\<newline>* [[Springfield, Ohio]]'' =
     [\<lparr>title = ''Springfield, Ohio'', city = ''Springfield'', state = ''Ohio''\<rparr>]"
  by code_simp

text \<open>
  C7. Let \<open>l\<close> be a bulleted line read while the section is open (\<open>section_open\<close> holds of
  the lines before it) whose first link, cut at its first pipe, has no comma. Then the
  parser (of either file) returns for the markup with \<open>l\<close> exactly what it returns for
  the markup without \<open>l\<close>: the line yields no entry, raises nothing, and changes no other
  entry.
\<close>

theorem commaless_line_dropped:
  assumes "split_on CHR ''\<newline>'' content = xs @ l # ys"
    and "split_on CHR ''\<newline>'' content' = xs @ ys"
    and "section_open False xs"
    and "startswith ''*'' (strip l)"
    and "re_search_link l = Some m"
    and "CHR '','' \<notin> set (takeWhile (\<lambda>c. c \<noteq> CHR ''|'') m)"
  shows "parse_us_springfields_from_wikitext content = parse_us_springfields_from_wikitext content' \<and>
         parse_us_cities_from_wikitext content = parse_us_cities_from_wikitext content'"
proof -
  have "parse_loop True acc (l # ys) = parse_loop True acc ys" for acc
    using bullet_not_heading [OF assms(4)] parse_entry_no_comma [OF assms(5,6)] assms(4)
    by simp
  then have "parse_us_springfields_from_wikitext content = parse_us_springfields_from_wikitext content'"
    unfolding parse_us_springfields_from_wikitext_def assms(1,2)
    by (simp add: parse_loop_section_open [OF assms(3)])
  then show ?thesis by (simp only: parse_cities_eq)
qed

theorem commaless_line_dropped_witness:
  "split_on CHR ''\<newline>''
     ''=== United States ===\<newline>* [[Springfield metropolitan area]]\<newline>* [[Springfield, Ohio]]'' =
     [''=== United States ===''] @ ''* [[Springfield metropolitan area]]'' # [''* [[Springfield, Ohio]]''] \<and>
   section_open False [''=== United States ===''] \<and>
   re_search_link ''* [[Springfield metropolitan area]]'' = Some ''Springfield metropolitan area'' \<and>
   parse_us_springfields_from_wikitext
     ''=== United States ===\<newline>* [[Springfield metropolitan area]]\<newline>* [[Springfield, Ohio]]'' =
   parse_us_springfields_from_wikitext
     ''=== United States ===\<newline>* [[Springfield, Ohio]]''"
proof -
  have h1: "split_on CHR ''\<newline>''
     ''=== United States ===\<newline>* [[Springfield metropolitan area]]\<newline>* [[Springfield, Ohio]]'' =
     [''=== United States ===''] @ ''* [[Springfield metropolitan area]]'' # [''* [[Springfield, Ohio]]'']"
    by code_simp
  have h2: "split_on CHR ''\<newline>'' ''=== United States ===\<newline>* [[Springfield, Ohio]]'' =
     [''=== United States ===''] @ [''* [[Springfield, Ohio]]'']"
    by code_simp
  have h3: "section_open False [''=== United States ===''] "
    by code_simp
  have h4: "startswith ''*'' (strip ''* [[Springfield metropolitan area]]'')"
    by code_simp
  have h5: "re_search_link ''* [[Springfield metropolitan area]]'' = Some ''Springfield metropolitan area''"
    by code_simp
  have h6: "CHR '','' \<notin> set (takeWhile (\<lambda>c. c \<noteq> CHR ''|'') ''Springfield metropolitan area'')"
    by code_simp
  show ?thesis
    using h1 h3 h5 commaless_line_dropped [OF h1 h2 h3 h4 h5 h6] by blast
qed

text \<open>
  C9. Every entry the parser of either file returns, for any markup, has a state with
  no opening parenthesis, and the state is empty or neither begins nor ends with a
  whitespace character.
\<close>

theorem parsed_state_clean:
  "(\<forall>e \<in> set (parse_us_springfields_from_wikitext content).
      CHR ''('' \<notin> set (state e) \<and>
      (state e = [] \<or> (\<not> is_space (hd (state e)) \<and> \<not> is_space (last (state e))))) \<and>
   (\<forall>e \<in> set (parse_us_cities_from_wikitext content).
      CHR ''('' \<notin> set (state e) \<and>
      (state e = [] \<or> (\<not> is_space (hd (state e)) \<and> \<not> is_space (last (state e)))))"
proof -
  have "\<forall>e \<in> set (parse_us_springfields_from_wikitext content).
      CHR ''('' \<notin> set (state e) \<and>
      (state e = [] \<or> (\<not> is_space (hd (state e)) \<and> \<not> is_space (last (state e))))"
    unfolding parse_us_springfields_from_wikitext_def
    by (rule parse_loop_state) (simp, rule parse_entry_state)
  then show ?thesis by (simp only: parse_cities_eq)
qed

theorem parsed_state_clean_witness:
  "parse_us_springfields_from_wikitext
     ''=== United States ===\<newline>* [[Springfield,  Ohio (town) ]]'' =
     [\<lparr>title = ''Springfield,  Ohio (town) '', city = ''Springfield'', state = ''Ohio''\<rparr>] \<and>
   CHR ''('' \<notin> set (state \<lparr>title = ''Springfield,  Ohio (town) '', city = ''Springfield'', state = ''Ohio''\<rparr>) \<and>
   (state \<lparr>title = ''Springfield,  Ohio (town) '', city = ''Springfield'', state = ''Ohio''\<rparr> = [] \<or>
    (\<not> is_space (hd (state \<lparr>title = ''Springfield,  Ohio (town) '', city = ''Springfield'', state = ''Ohio''\<rparr>)) \<and>
     \<not> is_space (last (state \<lparr>title = ''Springfield,  Ohio (town) '', city = ''Springfield'', state = ''Ohio''\<rparr>))))"
proof -
  have v: "parse_us_springfields_from_wikitext
     ''=== United States ===\<newline>* [[Springfield,  Ohio (town) ]]'' =
     [\<lparr>title = ''Springfield,  Ohio (town) '', city = ''Springfield'', state = ''Ohio''\<rparr>]"
    by code_simp
  have m: "\<lparr>title = ''Springfield,  Ohio (town) '', city = ''Springfield'', state = ''Ohio''\<rparr>
      \<in> set (parse_us_springfields_from_wikitext
          ''=== United States ===\<newline>* [[Springfield,  Ohio (town) ]]'')"
    unfolding v by (rule list.set_intros(1))
  show ?thesis
    by (rule conjI [OF v bspec [OF parsed_state_clean [THEN conjunct1] m]])
qed

section \<open>Facts about the joiner, the analyzer and the resolver\<close>

lemma fetch_cached:
  "zip_file w = Some c \<Longrightarrow> fetch_states_zip net w = (Inr (), w\<lparr>data_dir := True\<rparr>)"
  by (cases "data_dir w") (simp_all add: fetch_states_zip_def)

lemma fetch_twice_downloads:
  "downloads (snd (fetch_states_zip net (snd (fetch_states_zip net w)))) \<le> downloads w + 1"
  by (cases "data_dir w"; cases "zip_file w"; cases "net (length (requests w))";
      cases "net (Suc (length (requests w)))")
     (simp_all add: fetch_states_zip_def downloads_def)

lemma fetch_twice_requests:
  assumes "fst (fetch_states_zip net w) = Inr ()"
  shows "requests_issued (snd (fetch_states_zip net (snd (fetch_states_zip net w)))) \<le> requests_issued w + 1"
  using assms
  by (cases "data_dir w"; cases "zip_file w"; cases "net (length (requests w))")
     (simp_all add: fetch_states_zip_def requests_issued_def)

lemma state_match_of_simps:
  "state_match_of None n = False"
  "state_match_of s None = False"
  "state_match_of (Some a) (Some b) = (strip a = strip b)"
  by (simp_all add: state_match_of_def)

lemma joined_row_match:
  "state_match (joined_row x) =
     (case state_name (joined_row x) of
        None \<Rightarrow> False
      | Some n \<Rightarrow> strip (state (joined_row x)) = strip n)"
  by (cases x) (auto simp: joined_row_def state_match_of_simps split: option.splits)

lemma join_springfields_match:
  "fst (join_springfields_to_states is_in read_file net w gdf) = Inr joined \<Longrightarrow>
   r \<in> set joined \<Longrightarrow>
   state_match r = (case state_name r of None \<Rightarrow> False | Some n \<Rightarrow> strip (state r) = strip n)"
  by (auto simp: join_springfields_to_states_def Let_def joined_row_match
      split: prod.splits sum.splits option.splits)

lemma join_cities_match:
  "fst (join_cities_to_states is_in read_file net w gdf) = Inr joined \<Longrightarrow>
   r \<in> set joined \<Longrightarrow>
   state_match r = (case state_name r of None \<Rightarrow> False | Some n \<Rightarrow> strip (state r) = strip n)"
  by (auto simp: join_cities_to_states_def Let_def joined_row_match
      split: prod.splits sum.splits option.splits)

lemma sum_count_remdups: "sum_list (map (count_list xs) (remdups xs)) = length xs"
proof -
  have "sum_list (map (count_list xs) (remdups xs)) = sum (count_list xs) (set (remdups xs))"
    by (rule sum_list_distinct_conv_sum_set) simp
  also have "\<dots> = length xs" by (simp add: sum_count_set)
  finally show ?thesis .
qed

lemma sum_list_sort_key:
  fixes f :: "'a \<Rightarrow> nat"
  shows "sum_list (map f (sort_key g xs)) = sum_list (map f xs)"
proof -
  have ins: "sum_list (map f (insort_key g x ys)) = f x + sum_list (map f ys)" for x ys
    by (induction ys) (auto simp: add.left_commute)
  show ?thesis by (induction xs) (simp_all add: ins)
qed

lemma group_keys_length:
  "length (group_keys joined) =
   length (filter (\<lambda>r. state_name r \<noteq> None \<and> state_abbrev r \<noteq> None) joined)"
  by (induction joined) (auto simp: group_keys_def List.map_filter_simps split: option.splits)

lemma groupby_size_sum:
  "sum_list (map snd (groupby_size joined)) =
   length (filter (\<lambda>r. state_name r \<noteq> None \<and> state_abbrev r \<noteq> None) joined)"
proof -
  have "sum_list (map snd (groupby_size joined)) =
        sum_list (map (count_list (group_keys joined)) (sort (remdups (group_keys joined))))"
    by (simp add: groupby_size_def Let_def comp_def)
  also have "\<dots> = sum_list (map (count_list (group_keys joined)) (remdups (group_keys joined)))"
    by (rule sum_list_sort_key)
  also have "\<dots> = length (group_keys joined)" by (rule sum_count_remdups)
  finally show ?thesis by (simp add: group_keys_length)
qed

lemma sorted_desc:
  "sorted_wrt (\<lambda>a b. b \<le> a) (map snd (sort_key (\<lambda>r. - int (snd r)) xs))"
proof -
  have "sorted (map (\<lambda>r. - int (snd r)) (sort_key (\<lambda>r. - int (snd r)) xs))"
    by (rule sorted_sort_key)
  then have "sorted_wrt (\<lambda>x y. - int (snd x) \<le> - int (snd y)) (sort_key (\<lambda>r. - int (snd r)) xs)"
    by (simp only: sorted_map)
  then have "sorted_wrt (\<lambda>x y. snd y \<le> snd x) (sort_key (\<lambda>r. - int (snd r)) xs)"
    by (rule sorted_wrt_mono_rel [rotated]) simp
  then show ?thesis by (simp only: sorted_wrt_map)
qed

lemma batch_loop_general_eq:
  "batch_loop_general fl http cs starts res = batch_loop fl http cs starts res"
  by (induction starts arbitrary: res) (simp_all add: Let_def split: api_response.splits sum.splits)

lemma sjoin_left_filter:
  assumes "\<forall>x \<in> set right. \<not> keep x \<longrightarrow>
             (\<forall>r \<in> set left. \<not> is_in (geometry r) (state_geometry (snd x)))"
  shows "sjoin_left is_in left (filter keep right) = sjoin_left is_in left right"
proof -
  have "filter (\<lambda>(i, s). is_in (geometry r) (state_geometry s)) (filter keep right) =
        filter (\<lambda>(i, s). is_in (geometry r) (state_geometry s)) right"
    if "r \<in> set left" for r
    using assms that by (induction right) auto
  then show ?thesis
    unfolding sjoin_left_def by (auto intro!: arg_cong [where f = concat] map_cong)
qed

lemma process_page_error: "process_page fl batch page = Inl e \<Longrightarrow> e = IndexError"
  by (auto simp: process_page_def Let_def split: option.splits list.splits)

lemma pages_loop_error: "pages_loop fl batch pages results = Inl e \<Longrightarrow> e = IndexError"
  by (induction pages arbitrary: results)
     (auto split: sum.splits option.splits dest: process_page_error)

lemma pages_loop_bad:
  "page \<in> set pages \<Longrightarrow> process_page fl batch page = Inl IndexError \<Longrightarrow>
   pages_loop fl batch pages results = Inl IndexError"
proof (induction pages arbitrary: results)
  case Nil
  then show ?case by simp
next
  case (Cons p ps)
  show ?case
  proof (cases "process_page fl batch p")
    case (Inl e)
    then show ?thesis using process_page_error [OF Inl] by simp
  next
    case (Inr v)
    then have "p \<noteq> page" using Cons.prems(2) by auto
    with Cons.prems have "page \<in> set ps" by simp
    then show ?thesis using Inr Cons.IH Cons.prems(2) by (cases v) simp_all
  qed
qed

lemma batch_loop_bad:
  "i \<in> set starts \<Longrightarrow>
   http i (join_pipe (map title (take 50 (drop i cities)))) = Pages pages \<Longrightarrow>
   (\<And>results. pages_loop fl (take 50 (drop i cities)) pages results = Inl IndexError) \<Longrightarrow>
   batch_loop fl http cities starts results = Inl IndexError"
proof (induction starts arbitrary: results)
  case Nil
  then show ?case by simp
next
  case (Cons j starts)
  show ?case
  proof (cases "j = i")
    case True
    then show ?thesis using Cons.prems(2,3) by (simp add: Let_def)
  next
    case False
    with Cons.prems have "i \<in> set starts" by simp
    then have IH: "batch_loop fl http cities starts res = Inl IndexError" for res
      using Cons.IH Cons.prems(2,3) by blast
    show ?thesis
      using IH pages_loop_error
      by (auto simp: Let_def split: api_response.splits sum.splits)
  qed
qed

section \<open>Claims about the spatial joiner\<close>

text \<open>
  C1, as the code has it. In every row of the table returned by
  \<open>join_springfields_to_states\<close> or \<open>join_cities_to_states\<close>, \<open>state_match\<close> is true iff
  the polygon state name is not null and the trimmed wiki label equals the trimmed
  polygon name character for character. The comparison is case-sensitive: surrounding
  whitespace makes no difference, different case or content makes the flag false. The
  lambda that computes the flag gives false whenever either of its two cells is null.
\<close>

theorem state_match_flag:
  assumes "fst (join_springfields_to_states is_in read_file net w gdf) = Inr joined \<or>
           fst (join_cities_to_states is_in read_file net w gdf) = Inr joined"
    and "r \<in> set joined"
  shows "state_match r =
           (case state_name r of None \<Rightarrow> False | Some n \<Rightarrow> strip (state r) = strip n) \<and>
         state_match_of None (state_name r) = False \<and>
         state_match_of (Some (state r)) None = False"
proof -
  have "state_match r =
           (case state_name r of None \<Rightarrow> False | Some n \<Rightarrow> strip (state r) = strip n)"
    using assms join_springfields_match join_cities_match by blast
  then show ?thesis by (simp add: state_match_of_simps)
qed

theorem state_match_flag_witness:
  "fst (join_springfields_to_states example_within Some (\<lambda>k. Some example_states) empty_cache [example_place '' Ohio '' 1]) =
     Inr [(example_joined '' Ohio '' 1 (Some (0, ''Ohio'', ''OH'')) True)] \<and>
   state_match (example_joined '' Ohio '' 1 (Some (0, ''Ohio'', ''OH'')) True) =
     (case state_name (example_joined '' Ohio '' 1 (Some (0, ''Ohio'', ''OH'')) True) of
        None \<Rightarrow> False
      | Some n \<Rightarrow> strip (state (example_joined '' Ohio '' 1 (Some (0, ''Ohio'', ''OH'')) True)) = strip n)"
proof -
  have h: "fst (join_springfields_to_states example_within Some (\<lambda>k. Some example_states) empty_cache [example_place '' Ohio '' 1]) =
     Inr [(example_joined '' Ohio '' 1 (Some (0, ''Ohio'', ''OH'')) True)]"
    by code_simp
  have h1: "fst (join_springfields_to_states example_within Some (\<lambda>k. Some example_states) empty_cache [example_place '' Ohio '' 1]) =
     Inr [(example_joined '' Ohio '' 1 (Some (0, ''Ohio'', ''OH'')) True)] \<or>
     fst (join_cities_to_states example_within Some (\<lambda>k. Some example_states) empty_cache [example_place '' Ohio '' 1]) =
     Inr [(example_joined '' Ohio '' 1 (Some (0, ''Ohio'', ''OH'')) True)]"
    using h by (rule disjI1)
  have h2: "(example_joined '' Ohio '' 1 (Some (0, ''Ohio'', ''OH'')) True) \<in> set [(example_joined '' Ohio '' 1 (Some (0, ''Ohio'', ''OH'')) True)]"
    by (rule list.set_intros(1))
  show ?thesis
    by (rule conjI [OF h state_match_flag [OF h1 h2, THEN conjunct1]])
qed

text \<open>
  C1 as stated fails: a wiki label \<open>ohio\<close> joined to the polygon named \<open>Ohio\<close> differs
  from it in case only, and the flag is false.
\<close>

theorem state_match_case_counterexample:
  "fst (join_springfields_to_states example_within Some (\<lambda>k. Some example_states) empty_cache [example_place ''ohio'' 1]) =
     Inr [(example_joined ''ohio'' 1 (Some (0, ''Ohio'', ''OH'')) False)]"
  by code_simp

text \<open>
  C6, as the code has it. The two parsers are the same function, and so are the two
  coordinate resolvers. The two joins agree whenever no input point lies within a
  polygon of Alaska, Hawaii or Puerto Rico of the boundary table that the join reads
  from the cache: the general file removes those three rows from the table before
  joining, the Springfield file does not.
\<close>

theorem pipelines_agree:
  "parse_us_cities_from_wikitext content = parse_us_springfields_from_wikitext content \<and>
   get_coordinates_batch_general fl http cities = get_coordinates_batch fl http cities \<and>
   ((\<forall>states s r.
        read_file (the (zip_file (snd (fetch_states_zip net w)))) = Some states \<longrightarrow>
        s \<in> set states \<longrightarrow> STUSPS s \<in> set [''AK'', ''HI'', ''PR''] \<longrightarrow> r \<in> set gdf \<longrightarrow>
        \<not> is_in (geometry r) (state_geometry s)) \<longrightarrow>
    join_cities_to_states is_in read_file net w gdf =
    join_springfields_to_states is_in read_file net w gdf)"
proof (intro conjI impI)
  show "parse_us_cities_from_wikitext content = parse_us_springfields_from_wikitext content"
    by (rule parse_cities_eq)
  show "get_coordinates_batch_general fl http cities = get_coordinates_batch fl http cities"
    by (simp add: get_coordinates_batch_general_def get_coordinates_batch_def batch_loop_general_eq)
next
  assume H: "\<forall>states s r.
        read_file (the (zip_file (snd (fetch_states_zip net w)))) = Some states \<longrightarrow>
        s \<in> set states \<longrightarrow> STUSPS s \<in> set [''AK'', ''HI'', ''PR''] \<longrightarrow> r \<in> set gdf \<longrightarrow>
        \<not> is_in (geometry r) (state_geometry s)"
  have "sjoin_left is_in gdf
          (filter (\<lambda>(i, s). STUSPS s \<notin> set [''AK'', ''HI'', ''PR'']) (enumerate 0 states)) =
        sjoin_left is_in gdf (enumerate 0 states)"
    if "read_file (the (zip_file (snd (fetch_states_zip net w)))) = Some states" for states
  proof (rule sjoin_left_filter, intro ballI impI)
    fix x r
    assume x: "x \<in> set (enumerate 0 states)"
      and nk: "\<not> (case x of (i, s) \<Rightarrow> STUSPS s \<notin> set [''AK'', ''HI'', ''PR''])"
      and r: "r \<in> set gdf"
    have "snd ` set (enumerate 0 states) = set states"
      by (simp only: set_map [symmetric] map_snd_enumerate)
    moreover from x have "snd x \<in> snd ` set (enumerate 0 states)" by (rule imageI)
    ultimately have "snd x \<in> set states" by simp
    moreover from nk have "STUSPS (snd x) \<in> set [''AK'', ''HI'', ''PR'']"
      by (cases x) simp
    ultimately show "\<not> is_in (geometry r) (state_geometry (snd x))"
      using H that r by blast
  qed
  then show "join_cities_to_states is_in read_file net w gdf =
    join_springfields_to_states is_in read_file net w gdf"
    by (cases "fetch_states_zip net w")
       (simp add: join_cities_to_states_def join_springfields_to_states_def Let_def
        split: sum.splits option.splits)
qed

theorem pipelines_agree_witness:
  "parse_us_cities_from_wikitext ''=== United States ===\<newline>* [[Springfield, Ohio]]'' =
   parse_us_springfields_from_wikitext ''=== United States ===\<newline>* [[Springfield, Ohio]]'' \<and>
   get_coordinates_batch_general exact_ops (\<lambda>i t. NoPages) [example_entry] =
   get_coordinates_batch exact_ops (\<lambda>i t. NoPages) [example_entry] \<and>
   join_cities_to_states example_within Some (\<lambda>k. Some example_states) empty_cache [example_place ''Ohio'' 1] =
   join_springfields_to_states example_within Some (\<lambda>k. Some example_states) empty_cache [example_place ''Ohio'' 1]"
proof -
  have z: "the (zip_file (snd (fetch_states_zip (\<lambda>k. Some example_states) empty_cache))) =
      example_states"
    by (simp add: fetch_states_zip_def empty_cache_def)
  have H: "\<forall>states s r.
        Some (the (zip_file (snd (fetch_states_zip (\<lambda>k. Some example_states) empty_cache)))) =
          Some states \<longrightarrow>
        s \<in> set states \<longrightarrow> STUSPS s \<in> set [''AK'', ''HI'', ''PR''] \<longrightarrow>
        r \<in> set [example_place ''Ohio'' 1] \<longrightarrow>
        \<not> example_within (geometry r) (state_geometry s)"
    unfolding z by (auto simp: example_states_def example_within_def example_place_def)
  note a = pipelines_agree [of "''=== United States ===\<newline>* [[Springfield, Ohio]]''" exact_ops
      "\<lambda>i t. NoPages" "[example_entry]" Some "\<lambda>k. Some example_states" empty_cache
      "[example_place ''Ohio'' 1]" example_within]
  from a have j: "join_cities_to_states example_within Some (\<lambda>k. Some example_states) empty_cache [example_place ''Ohio'' 1] =
   join_springfields_to_states example_within Some (\<lambda>k. Some example_states) empty_cache [example_place ''Ohio'' 1]"
    using H by blast
  from a j show ?thesis by blast
qed

text \<open>
  C6 as stated fails: a point within the Alaska polygon is joined to Alaska by
  \<open>join_springfields_to_states\<close> and to no state by \<open>join_cities_to_states\<close>.
\<close>

theorem join_differs_counterexample:
  "fst (join_springfields_to_states example_within Some (\<lambda>k. Some example_states) empty_cache [example_place ''Alaska'' 2]) =
     Inr [(example_joined ''Alaska'' 2 (Some (1, ''Alaska'', ''AK'')) True)] \<and>
   fst (join_cities_to_states example_within Some (\<lambda>k. Some example_states) empty_cache [example_place ''Alaska'' 2]) =
     Inr [(example_joined ''Alaska'' 2 None False)]"
  by code_simp

text \<open>
  C8, as the code has it. If the cache file exists when the join is invoked, no request
  is made, the cache is left as it is, and the table returned by either join is the one
  computed from the cached content. Over two consecutive runs of the fetch at most one
  download completes, and at most one request is made provided the first run returned
  normally; a request that raises leaves no file behind.
\<close>

theorem cache_fetch_idempotent:
  "(zip_file w = Some c \<longrightarrow>
      fetch_states_zip net w = (Inr (), w\<lparr>data_dir := True\<rparr>) \<and>
      join_springfields_to_states is_in read_file net w gdf =
        ((case read_file c of
            None \<Rightarrow> Inl ReadError
          | Some states \<Rightarrow> Inr (map joined_row (sjoin_left is_in gdf (enumerate 0 states)))),
         w\<lparr>data_dir := True\<rparr>) \<and>
      join_cities_to_states is_in read_file net w gdf =
        ((case read_file c of
            None \<Rightarrow> Inl ReadError
          | Some states \<Rightarrow>
              Inr (map joined_row (sjoin_left is_in gdf
                (filter (\<lambda>(i, s). STUSPS s \<notin> set [''AK'', ''HI'', ''PR''])
                   (enumerate 0 states))))),
         w\<lparr>data_dir := True\<rparr>) \<and>
      requests_issued (snd (join_springfields_to_states is_in read_file net w gdf)) = requests_issued w \<and>
      zip_file (snd (join_springfields_to_states is_in read_file net w gdf)) = Some c \<and>
      requests_issued (snd (join_cities_to_states is_in read_file net w gdf)) = requests_issued w \<and>
      zip_file (snd (join_cities_to_states is_in read_file net w gdf)) = Some c) \<and>
   downloads (snd (fetch_states_zip net (snd (fetch_states_zip net w)))) \<le> downloads w + 1 \<and>
   (fst (fetch_states_zip net w) = Inr () \<longrightarrow>
      requests_issued (snd (fetch_states_zip net (snd (fetch_states_zip net w)))) \<le> requests_issued w + 1) \<and>
   (zip_file w = None \<longrightarrow> net (length (requests w)) = None \<longrightarrow>
      fst (fetch_states_zip net w) = Inl RequestError \<and>
      zip_file (snd (fetch_states_zip net w)) = None)"
proof (intro conjI impI)
  assume c: "zip_file w = Some c"
  show "fetch_states_zip net w = (Inr (), w\<lparr>data_dir := True\<rparr>)"
    using c by (rule fetch_cached)
  show js: "join_springfields_to_states is_in read_file net w gdf =
        ((case read_file c of
            None \<Rightarrow> Inl ReadError
          | Some states \<Rightarrow> Inr (map joined_row (sjoin_left is_in gdf (enumerate 0 states)))),
         w\<lparr>data_dir := True\<rparr>)"
    using c by (simp add: join_springfields_to_states_def fetch_cached [OF c] Let_def
        split: option.splits)
  show jc: "join_cities_to_states is_in read_file net w gdf =
        ((case read_file c of
            None \<Rightarrow> Inl ReadError
          | Some states \<Rightarrow>
              Inr (map joined_row (sjoin_left is_in gdf
                (filter (\<lambda>(i, s). STUSPS s \<notin> set [''AK'', ''HI'', ''PR''])
                   (enumerate 0 states))))),
         w\<lparr>data_dir := True\<rparr>)"
    using c by (simp add: join_cities_to_states_def fetch_cached [OF c] Let_def
        split: option.splits)
  show "requests_issued (snd (join_springfields_to_states is_in read_file net w gdf)) = requests_issued w"
    by (simp add: js requests_issued_def)
  show "zip_file (snd (join_springfields_to_states is_in read_file net w gdf)) = Some c"
    using c by (simp add: js)
  show "requests_issued (snd (join_cities_to_states is_in read_file net w gdf)) = requests_issued w"
    by (simp add: jc requests_issued_def)
  show "zip_file (snd (join_cities_to_states is_in read_file net w gdf)) = Some c"
    using c by (simp add: jc)
next
  show "downloads (snd (fetch_states_zip net (snd (fetch_states_zip net w)))) \<le> downloads w + 1"
    by (rule fetch_twice_downloads)
next
  assume "fst (fetch_states_zip net w) = Inr ()"
  then show "requests_issued (snd (fetch_states_zip net (snd (fetch_states_zip net w)))) \<le> requests_issued w + 1"
    by (rule fetch_twice_requests)
next
  assume n: "zip_file w = None" "net (length (requests w)) = None"
  show "fst (fetch_states_zip net w) = Inl RequestError"
    using n by (cases "data_dir w") (simp_all add: fetch_states_zip_def)
  show "zip_file (snd (fetch_states_zip net w)) = None"
    using n by (cases "data_dir w") (simp_all add: fetch_states_zip_def)
qed

theorem cache_fetch_idempotent_witness:
  "zip_file filled_cache = Some example_states \<and>
   fetch_states_zip (\<lambda>k. Some example_states) filled_cache =
     (Inr (), filled_cache\<lparr>data_dir := True\<rparr>) \<and>
   join_springfields_to_states example_within Some (\<lambda>k. Some example_states) filled_cache
     [example_place ''Alaska'' 2] =
     (Inr [example_joined ''Alaska'' 2 (Some (1, ''Alaska'', ''AK'')) True],
      filled_cache\<lparr>data_dir := True\<rparr>) \<and>
   downloads (snd (fetch_states_zip (\<lambda>k. Some example_states)
       (snd (fetch_states_zip (\<lambda>k. Some example_states) empty_cache)))) \<le> downloads empty_cache + 1 \<and>
   fst (fetch_states_zip (\<lambda>k. Some example_states) empty_cache) = Inr () \<and>
   requests_issued (snd (fetch_states_zip (\<lambda>k. Some example_states)
       (snd (fetch_states_zip (\<lambda>k. Some example_states) empty_cache)))) \<le> requests_issued empty_cache + 1"
proof -
  have h1: "zip_file filled_cache = Some example_states"
    by (simp add: filled_cache_def)
  have h2: "fst (fetch_states_zip (\<lambda>k. Some example_states) empty_cache) = Inr ()"
    by (simp add: fetch_states_zip_def empty_cache_def)
  have v: "(case Some example_states of
            None \<Rightarrow> Inl ReadError
          | Some states \<Rightarrow>
              Inr (map joined_row (sjoin_left example_within [example_place ''Alaska'' 2]
                (enumerate 0 states)))) =
        Inr [example_joined ''Alaska'' 2 (Some (1, ''Alaska'', ''AK'')) True]"
    by code_simp
  note a = cache_fetch_idempotent [of filled_cache example_states "\<lambda>k. Some example_states"
      example_within Some "[example_place ''Alaska'' 2]"]
  note b = cache_fetch_idempotent [of empty_cache example_states "\<lambda>k. Some example_states"]
  from a h1 have c1: "fetch_states_zip (\<lambda>k. Some example_states) filled_cache =
     (Inr (), filled_cache\<lparr>data_dir := True\<rparr>)"
    by blast
  from a h1 have "join_springfields_to_states example_within Some (\<lambda>k. Some example_states)
      filled_cache [example_place ''Alaska'' 2] =
     ((case Some example_states of
            None \<Rightarrow> Inl ReadError
          | Some states \<Rightarrow>
              Inr (map joined_row (sjoin_left example_within [example_place ''Alaska'' 2]
                (enumerate 0 states)))),
      filled_cache\<lparr>data_dir := True\<rparr>)"
    by blast
  then have c0: "join_springfields_to_states example_within Some (\<lambda>k. Some example_states)
      filled_cache [example_place ''Alaska'' 2] =
     (Inr [example_joined ''Alaska'' 2 (Some (1, ''Alaska'', ''AK'')) True],
      filled_cache\<lparr>data_dir := True\<rparr>)"
    by (simp only: v)
  from b have c2: "downloads (snd (fetch_states_zip (\<lambda>k. Some example_states)
       (snd (fetch_states_zip (\<lambda>k. Some example_states) empty_cache)))) \<le> downloads empty_cache + 1"
    by blast
  from b h2 have c3: "requests_issued (snd (fetch_states_zip (\<lambda>k. Some example_states)
       (snd (fetch_states_zip (\<lambda>k. Some example_states) empty_cache)))) \<le> requests_issued empty_cache + 1"
    by blast
  from h1 c1 c0 c2 h2 c3 show ?thesis by blast
qed

text \<open>
  C8 as stated fails: when the request of the first run raises, no file is written, and
  the second run makes a second request.
\<close>

theorem second_request_counterexample:
  "requests_issued empty_cache = 0 \<and>
   requests_issued (snd (fetch_states_zip (\<lambda>k. None)
     (snd (fetch_states_zip (\<lambda>k. None) empty_cache)))) = 2"
  by (simp add: requests_issued_def fetch_states_zip_def empty_cache_def)

section \<open>Claims about the distribution analyzer\<close>

text \<open>
  C2, as the code has it. The counts returned by \<open>analyze_springfield_distribution\<close> and
  \<open>analyze_cities_distribution\<close> sum to the number of joined rows whose \<open>state_name\<close> and
  \<open>state_abbrev\<close> are both non-null (rows left unmatched by the join are in no group),
  and the rows are in non-increasing order of count.
\<close>

theorem distribution_counts:
  "sum_list (map snd (analyze_springfield_distribution joined_gdf)) =
     length (filter (\<lambda>r. state_name r \<noteq> None \<and> state_abbrev r \<noteq> None) joined_gdf) \<and>
   sorted_wrt (\<lambda>a b. b \<le> a) (map snd (analyze_springfield_distribution joined_gdf)) \<and>
   sum_list (map snd (analyze_cities_distribution joined_gdf)) =
     length (filter (\<lambda>r. state_name r \<noteq> None \<and> state_abbrev r \<noteq> None) joined_gdf) \<and>
   sorted_wrt (\<lambda>a b. b \<le> a) (map snd (analyze_cities_distribution joined_gdf))"
proof -
  have s: "sum_list (map snd (sort_key (\<lambda>r. - int (snd r)) (groupby_size joined_gdf))) =
     length (filter (\<lambda>r. state_name r \<noteq> None \<and> state_abbrev r \<noteq> None) joined_gdf)"
    using sum_list_sort_key [of snd "\<lambda>r. - int (snd r)" "groupby_size joined_gdf"]
      groupby_size_sum [of joined_gdf]
    by simp
  show ?thesis
    unfolding analyze_springfield_distribution_def analyze_cities_distribution_def Let_def
    using s sorted_desc [of "groupby_size joined_gdf"] by simp
qed

theorem distribution_counts_witness:
  "analyze_springfield_distribution
     [(example_joined '' Ohio '' 1 (Some (0, ''Ohio'', ''OH'')) True),
      (example_joined ''Alaska'' 2 (Some (1, ''Alaska'', ''AK'')) True),
      (example_joined ''Guam'' 3 None False),
      (example_joined ''Ohio'' 1 (Some (0, ''Ohio'', ''OH'')) True)] =
     [((''Ohio'', ''OH''), 2), ((''Alaska'', ''AK''), 1)] \<and>
   sum_list (map snd (analyze_springfield_distribution
     [(example_joined '' Ohio '' 1 (Some (0, ''Ohio'', ''OH'')) True),
      (example_joined ''Alaska'' 2 (Some (1, ''Alaska'', ''AK'')) True),
      (example_joined ''Guam'' 3 None False),
      (example_joined ''Ohio'' 1 (Some (0, ''Ohio'', ''OH'')) True)])) =
   length (filter (\<lambda>r. state_name r \<noteq> None \<and> state_abbrev r \<noteq> None)
     [(example_joined '' Ohio '' 1 (Some (0, ''Ohio'', ''OH'')) True),
      (example_joined ''Alaska'' 2 (Some (1, ''Alaska'', ''AK'')) True),
      (example_joined ''Guam'' 3 None False),
      (example_joined ''Ohio'' 1 (Some (0, ''Ohio'', ''OH'')) True)])"
proof -
  have v: "analyze_springfield_distribution
     [(example_joined '' Ohio '' 1 (Some (0, ''Ohio'', ''OH'')) True),
      (example_joined ''Alaska'' 2 (Some (1, ''Alaska'', ''AK'')) True),
      (example_joined ''Guam'' 3 None False),
      (example_joined ''Ohio'' 1 (Some (0, ''Ohio'', ''OH'')) True)] =
     [((''Ohio'', ''OH''), 2), ((''Alaska'', ''AK''), 1)]"
    by code_simp
  show ?thesis
    by (rule conjI [OF v distribution_counts [THEN conjunct1]])
qed

text \<open>
  C2 as stated fails: a joined table whose only row has null state fields gives an empty
  output, whose counts sum to 0, not to the 1 row of the table.
\<close>

theorem distribution_total_counterexample:
  "sum_list (map snd (analyze_springfield_distribution
     [(example_joined ''Guam'' 3 None False)])) = 0 \<and>
   length [(example_joined ''Guam'' 3 None False)] = 1"
  by code_simp

section \<open>Claims about the coordinate resolver\<close>

text \<open>
  C10. For a page matched to an entry of its batch: if its \<open>coordinates\<close> list is empty,
  processing the page raises \<open>IndexError\<close>; if the list is non-empty, the page yields the
  row with the latitude and longitude of the first element. And when the answer to the
  request of some batch contains a matched page with an empty \<open>coordinates\<close> list,
  \<open>get_coordinates_batch\<close> (of either file) fails with that exception instead of
  returning a table without the entry.
\<close>

theorem empty_coordinates_raise:
  assumes "find (\<lambda>s. title s = page_title page) batch = Some original"
  shows "(coordinates page = Some [] \<longrightarrow> process_page fl batch page = Inl IndexError) \<and>
         (\<forall>c cs. coordinates page = Some (c # cs) \<longrightarrow>
            process_page fl batch page =
              Inr (Some \<lparr>title = page_title page, city = city original, state = state original,
                         latitude = lat c, longitude = lon c,
                         url = (case canonicalurl page of None \<Rightarrow> [] | Some u \<Rightarrow> u)\<rparr>)) \<and>
         (coordinates page = Some [] \<longrightarrow> i \<in> set (batch_starts (length cities)) \<longrightarrow>
          batch = take 50 (drop i cities) \<longrightarrow>
          http i (join_pipe (map title batch)) = Pages pages \<longrightarrow> page \<in> set pages \<longrightarrow>
            get_coordinates_batch fl http cities = Inl IndexError \<and>
            get_coordinates_batch_general fl http cities = Inl IndexError)"
proof (intro conjI allI impI)
  show a: "process_page fl batch page = Inl IndexError" if "coordinates page = Some []"
    using assms that by (simp add: process_page_def Let_def)
  show "process_page fl batch page =
              Inr (Some \<lparr>title = page_title page, city = city original, state = state original,
                         latitude = lat c, longitude = lon c,
                         url = (case canonicalurl page of None \<Rightarrow> [] | Some u \<Rightarrow> u)\<rparr>)"
    if "coordinates page = Some (c # cs)" for c cs
    using assms that by (simp add: process_page_def Let_def)
  assume h: "coordinates page = Some []" "i \<in> set (batch_starts (length cities))"
    "batch = take 50 (drop i cities)" "http i (join_pipe (map title batch)) = Pages pages"
    "page \<in> set pages"
  have pl: "pages_loop fl (take 50 (drop i cities)) pages results = Inl IndexError" for results
    using pages_loop_bad [OF h(5)] a [OF h(1)] h(3) by simp
  have rq: "http i (join_pipe (map title (take 50 (drop i cities)))) = Pages pages"
    using h(3,4) by simp
  have b: "batch_loop fl http cities (batch_starts (length cities)) [] = Inl IndexError"
    by (rule batch_loop_bad [where http = http and i = i and cities = cities and pages = pages,
          OF h(2) rq]) (rule pl)
  show "get_coordinates_batch fl http cities = Inl IndexError"
    using b by (simp add: get_coordinates_batch_def)
  show "get_coordinates_batch_general fl http cities = Inl IndexError"
    using b by (simp add: get_coordinates_batch_general_def batch_loop_general_eq)
qed

theorem empty_coordinates_raise_witness:
  "find (\<lambda>s. title s = page_title example_page) [example_entry] = Some example_entry \<and>
   coordinates example_page = Some [] \<and>
   process_page exact_ops [example_entry] example_page = Inl IndexError \<and>
   get_coordinates_batch exact_ops (\<lambda>i t. Pages [example_page]) [example_entry] =
     Inl IndexError"
proof -
  have h1: "find (\<lambda>s. title s = page_title example_page) [example_entry] = Some example_entry"
    by (simp add: example_page_def example_entry_def)
  have h2: "coordinates example_page = Some []"
    by (simp add: example_page_def)
  have h3: "0 \<in> set (batch_starts (length [example_entry]))"
    by (simp add: batch_starts_def)
  have h4: "[example_entry] = take 50 (drop 0 [example_entry])"
    by simp
  have h5: "(\<lambda>(i :: nat) (t :: string). Pages [example_page]) 0
      (join_pipe (map title [example_entry])) = Pages [example_page]"
    by simp
  have h6: "example_page \<in> set [example_page]"
    by simp
  note a = empty_coordinates_raise [OF h1, of exact_ops 0 "[example_entry]"
      "\<lambda>i t. Pages [example_page]" "[example_page]"]
  from a h2 have c1: "process_page exact_ops [example_entry] example_page = Inl IndexError"
    by blast
  from a h2 h3 h4 h5 h6
  have c2: "get_coordinates_batch exact_ops (\<lambda>i t. Pages [example_page]) [example_entry] =
     Inl IndexError"
    by blast
  from h1 h2 c1 c2 show ?thesis by blast
qed

section \<open>Facts about the coordinate template\<close>

lemma take_bit_letter: "n \<le> 122 \<Longrightarrow> take_bit 8 (n - 32) = n - (32::nat)"
  by (simp add: take_bit_nat_eq_self_iff)

lemma upper_char_letter:
  assumes U: "of_char U = (u::nat)" and L: "of_char L = u + 32" and r: "65 \<le> u" "u \<le> 90"
  shows "upper_char c = U \<longleftrightarrow> c = U \<or> c = L"
proof (cases "97 \<le> (of_char c :: nat) \<and> (of_char c :: nat) \<le> 122")
  case True
  then have u: "upper_char c = char_of ((of_char c :: nat) - 32)"
    by (simp add: upper_char_def)
  have "char_of ((of_char c :: nat) - 32) = U \<longleftrightarrow>
        take_bit 8 ((of_char c :: nat) - 32) = (of_char U :: nat)"
    by (rule char_of_eq_iff)
  also have "take_bit 8 ((of_char c :: nat) - 32) = (of_char c :: nat) - 32"
    using True by (intro take_bit_letter) simp
  also have "(of_char c :: nat) - 32 = of_char U \<longleftrightarrow> (of_char c :: nat) = of_char L"
    using True U L by auto
  also have "\<dots> \<longleftrightarrow> c = L" by (rule of_char_eq_iff)
  finally have a: "upper_char c = U \<longleftrightarrow> c = L" by (simp only: u)
  have "c \<noteq> U" using True U r by auto
  with a show ?thesis by simp
next
  case False
  then have u: "upper_char c = c" by (auto simp: upper_char_def)
  have "c \<noteq> L" using False L r by auto
  with u show ?thesis by auto
qed

lemma upper_single:
  assumes "\<And>c. upper_char c = U \<longleftrightarrow> c = U \<or> c = L"
  shows "upper h = [U] \<longleftrightarrow> h = [U] \<or> h = [L]"
proof (cases h)
  case Nil
  then show ?thesis by (simp add: upper_def)
next
  case (Cons c cs)
  then show ?thesis by (cases cs) (simp_all add: upper_def assms)
qed

lemma upper_S: "upper h = ''S'' \<longleftrightarrow> h = ''S'' \<or> h = ''s''"
  by (rule upper_single, rule upper_char_letter [where u = 83]) simp_all

lemma upper_W: "upper h = ''W'' \<longleftrightarrow> h = ''W'' \<or> h = ''w''"
  by (rule upper_single, rule upper_char_letter [where u = 87]) simp_all

lemma dms_to_decimal_eq:
  assumes "to_float fl lat_deg = Some a" "to_float fl lat_min = Some b"
    "to_float fl lat_sec = Some c" "to_float fl lon_deg = Some d"
    "to_float fl lon_min = Some e" "to_float fl lon_sec = Some g"
  shows "dms_to_decimal fl [lat_deg, lat_min, lat_sec, lat_dir, lon_deg, lon_min, lon_sec, lon_dir] =
     Some (if lat_dir = ''S'' \<or> lat_dir = ''s''
           then fneg fl (fadd fl (fadd fl a (fdiv fl b 60)) (fdiv fl c 3600))
           else fadd fl (fadd fl a (fdiv fl b 60)) (fdiv fl c 3600),
           if lon_dir = ''W'' \<or> lon_dir = ''w''
           then fneg fl (fadd fl (fadd fl d (fdiv fl e 60)) (fdiv fl g 3600))
           else fadd fl (fadd fl d (fdiv fl e 60)) (fdiv fl g 3600))"
  unfolding dms_to_decimal_def using assms
  by (simp add: Let_def upper_S upper_W)

lemma process_page_template:
  assumes "find (\<lambda>s. title s = page_title page) batch = Some original"
    and "coordinates page = None"
    and "revisions page = Some (content # others)"
    and "re_search_coord content = Some groups"
    and "dms_to_decimal fl groups = Some (la, lo)"
  shows "process_page fl batch page =
     Inr (Some \<lparr>title = page_title page, city = city original, state = state original,
                latitude = la, longitude = lo,
                url = (case canonicalurl page of None \<Rightarrow> [] | Some u \<Rightarrow> u)\<rparr>)"
  using assms by (simp add: process_page_def Let_def)

lemma round_add:
  assumes "rounds_within eps fl" "eps \<le> 1 / 10000000" "\<bar>x + y\<bar> \<le> 100"
  shows "\<bar>fadd fl x y - (x + y)\<bar> \<le> 1 / 100000"
proof -
  have "\<bar>fadd fl x y - (x + y)\<bar> \<le> eps * \<bar>x + y\<bar>"
    using assms(1) by (simp add: rounds_within_def)
  also have "eps * \<bar>x + y\<bar> \<le> (1 / 10000000) * 100"
    using assms(2,3) by (intro mult_mono) simp_all
  finally show ?thesis by simp
qed

lemma round_div:
  assumes "rounds_within eps fl" "eps \<le> 1 / 10000000" "n \<noteq> 0" "\<bar>x / of_int n\<bar> \<le> 100"
  shows "\<bar>fdiv fl x n - x / of_int n\<bar> \<le> 1 / 100000"
proof -
  have "\<bar>fdiv fl x n - x / of_int n\<bar> \<le> eps * \<bar>x / of_int n\<bar>"
    using assms(1,3) by (simp add: rounds_within_def)
  also have "eps * \<bar>x / of_int n\<bar> \<le> (1 / 10000000) * 100"
    using assms(2,4) by (intro mult_mono) simp_all
  finally show ?thesis by simp
qed

lemma round_dms:
  assumes rw: "rounds_within eps fl" and eps: "eps \<le> 1 / 10000000"
    and a: "0 \<le> a" "a \<le> 90" and b: "0 \<le> b" "b \<le> 60"
  shows "\<bar>fadd fl (fadd fl a (fdiv fl b 60)) (fdiv fl 0 3600) - (a + b / 60)\<bar> \<le> 4 / 100000"
proof -
  let ?d = "fdiv fl b 60" and ?z = "fdiv fl 0 3600"
  have d: "\<bar>?d - b / 60\<bar> \<le> 1 / 100000"
    using round_div [OF rw eps, of 60 b] b by simp
  have z: "\<bar>?z - 0\<bar> \<le> 1 / 100000"
    using round_div [OF rw eps, of 3600 0] by simp
  have "\<bar>a + ?d\<bar> \<le> 100" using d a b by linarith
  then have s: "\<bar>fadd fl a ?d - (a + ?d)\<bar> \<le> 1 / 100000"
    by (rule round_add [OF rw eps])
  have "\<bar>fadd fl a ?d + ?z\<bar> \<le> 100" using s d z a b by linarith
  then have t: "\<bar>fadd fl (fadd fl a ?d) ?z - (fadd fl a ?d + ?z)\<bar> \<le> 1 / 100000"
    by (rule round_add [OF rw eps])
  from d z s t show ?thesis by linarith
qed

lemma exact_real_rounds: "rounds_within 0 exact_real_ops"
  by (simp add: rounds_within_def exact_real_ops_def)

lemma exact_real_to_float:
  "to_float exact_real_ops ''39'' = Some 39" "to_float exact_real_ops ''55'' = Some 55"
  "to_float exact_real_ops ''0'' = Some 0" "to_float exact_real_ops ''83'' = Some 83"
  "to_float exact_real_ops ''48'' = Some 48"
proof -
  have "digits_value 0 ''39'' = Some 39" "digits_value 0 ''55'' = Some 55"
    "digits_value 0 ''0'' = Some 0" "digits_value 0 ''83'' = Some 83"
    "digits_value 0 ''48'' = Some 48"
    by code_simp+
  then show "to_float exact_real_ops ''39'' = Some 39" "to_float exact_real_ops ''55'' = Some 55"
  "to_float exact_real_ops ''0'' = Some 0" "to_float exact_real_ops ''83'' = Some 83"
  "to_float exact_real_ops ''48'' = Some 48"
    by (simp_all add: exact_real_ops_def)
qed

section \<open>The coordinate conversion\<close>

text \<open>
  C5. For a page matched to an entry of its batch, without structured coordinates, whose
  first revision content has the coordinate template with eight fields as the leftmost
  match of the pattern, and whose six numeric fields are accepted by \<open>float\<close>: whatever
  the float operations are, the row has latitude
  \<open>float(deg) + float(min)/60 + float(sec)/3600\<close> of the first three fields, negated iff
  the fourth field is \<open>S\<close> or \<open>s\<close>, and longitude the same expression of the fifth to
  seventh fields, negated iff the eighth is \<open>W\<close> or \<open>w\<close> (so \<open>N\<close> and \<open>E\<close> leave the
  signs as they are). And for the template \<open>{{coord|39|55|0|N|83|48|0|W}}\<close>, with any
  float operations that round with a relative error of at most \<open>10^-7\<close> and read the
  five small integers exactly, the row's latitude is within \<open>10^-4\<close> of 39.9167 and its
  longitude within \<open>10^-4\<close> of -83.8.
\<close>

theorem dms_conversion:
  "(find (\<lambda>s. title s = page_title page) batch = Some original \<longrightarrow>
    coordinates page = None \<longrightarrow> revisions page = Some (content # others) \<longrightarrow>
    re_search_coord content =
      Some [lat_deg, lat_min, lat_sec, lat_dir, lon_deg, lon_min, lon_sec, lon_dir] \<longrightarrow>
    to_float fl lat_deg = Some a \<longrightarrow> to_float fl lat_min = Some b \<longrightarrow>
    to_float fl lat_sec = Some c \<longrightarrow> to_float fl lon_deg = Some d \<longrightarrow>
    to_float fl lon_min = Some e \<longrightarrow> to_float fl lon_sec = Some g \<longrightarrow>
    process_page fl batch page =
      Inr (Some \<lparr>title = page_title page, city = city original, state = state original,
                 latitude =
                   (if lat_dir = ''S'' \<or> lat_dir = ''s''
                    then fneg fl (fadd fl (fadd fl a (fdiv fl b 60)) (fdiv fl c 3600))
                    else fadd fl (fadd fl a (fdiv fl b 60)) (fdiv fl c 3600)),
                 longitude =
                   (if lon_dir = ''W'' \<or> lon_dir = ''w''
                    then fneg fl (fadd fl (fadd fl d (fdiv fl e 60)) (fdiv fl g 3600))
                    else fadd fl (fadd fl d (fdiv fl e 60)) (fdiv fl g 3600)),
                 url = (case canonicalurl page of None \<Rightarrow> [] | Some u \<Rightarrow> u)\<rparr>)) \<and>
   (find (\<lambda>s. title s = page_title rpage) batch = Some original \<longrightarrow>
    coordinates rpage = None \<longrightarrow>
    revisions rpage = Some (''{{coord|39|55|0|N|83|48|0|W}}'' # others') \<longrightarrow>
    rounds_within eps flr \<longrightarrow> eps \<le> 1 / 10000000 \<longrightarrow>
    to_float flr ''39'' = Some 39 \<longrightarrow> to_float flr ''55'' = Some 55 \<longrightarrow>
    to_float flr ''0'' = Some 0 \<longrightarrow> to_float flr ''83'' = Some 83 \<longrightarrow>
    to_float flr ''48'' = Some 48 \<longrightarrow>
    (\<exists>la lo.
       process_page flr batch rpage =
         Inr (Some \<lparr>title = page_title rpage, city = city original, state = state original,
                    latitude = la, longitude = lo,
                    url = (case canonicalurl rpage of None \<Rightarrow> [] | Some u \<Rightarrow> u)\<rparr>) \<and>
       \<bar>la - 399167 / 10000\<bar> < 1 / 10000 \<and> \<bar>lo - (- (838 / 10))\<bar> < 1 / 10000))"
proof (intro conjI impI)
  assume h: "find (\<lambda>s. title s = page_title page) batch = Some original"
    "coordinates page = None" "revisions page = Some (content # others)"
    "re_search_coord content =
      Some [lat_deg, lat_min, lat_sec, lat_dir, lon_deg, lon_min, lon_sec, lon_dir]"
    and f: "to_float fl lat_deg = Some a" "to_float fl lat_min = Some b"
    "to_float fl lat_sec = Some c" "to_float fl lon_deg = Some d"
    "to_float fl lon_min = Some e" "to_float fl lon_sec = Some g"
  show "process_page fl batch page =
      Inr (Some \<lparr>title = page_title page, city = city original, state = state original,
                 latitude =
                   (if lat_dir = ''S'' \<or> lat_dir = ''s''
                    then fneg fl (fadd fl (fadd fl a (fdiv fl b 60)) (fdiv fl c 3600))
                    else fadd fl (fadd fl a (fdiv fl b 60)) (fdiv fl c 3600)),
                 longitude =
                   (if lon_dir = ''W'' \<or> lon_dir = ''w''
                    then fneg fl (fadd fl (fadd fl d (fdiv fl e 60)) (fdiv fl g 3600))
                    else fadd fl (fadd fl d (fdiv fl e 60)) (fdiv fl g 3600)),
                 url = (case canonicalurl page of None \<Rightarrow> [] | Some u \<Rightarrow> u)\<rparr>)"
    by (rule process_page_template [OF h dms_to_decimal_eq [OF f]])
next
  assume h: "find (\<lambda>s. title s = page_title rpage) batch = Some original"
    "coordinates rpage = None"
    "revisions rpage = Some (''{{coord|39|55|0|N|83|48|0|W}}'' # others')"
    and rw: "rounds_within eps flr" and eps: "eps \<le> 1 / 10000000"
    and f: "to_float flr ''39'' = Some 39" "to_float flr ''55'' = Some 55"
    "to_float flr ''0'' = Some 0" "to_float flr ''83'' = Some 83"
    "to_float flr ''48'' = Some 48"
  let ?la = "fadd flr (fadd flr 39 (fdiv flr 55 60)) (fdiv flr 0 3600)"
  let ?lo = "fadd flr (fadd flr 83 (fdiv flr 48 60)) (fdiv flr 0 3600)"
  have g: "re_search_coord ''{{coord|39|55|0|N|83|48|0|W}}'' =
      Some [''39'', ''55'', ''0'', ''N'', ''83'', ''48'', ''0'', ''W'']"
    by code_simp
  have neg: "fneg flr ?lo = - ?lo" using rw by (simp add: rounds_within_def)
  have "dms_to_decimal flr [''39'', ''55'', ''0'', ''N'', ''83'', ''48'', ''0'', ''W''] =
      Some (?la, - ?lo)"
    using dms_to_decimal_eq [OF f(1) f(2) f(3) f(4) f(5) f(3), of "''N''" "''W''"] neg
    by simp
  then have p: "process_page flr batch rpage =
         Inr (Some \<lparr>title = page_title rpage, city = city original, state = state original,
                    latitude = ?la, longitude = - ?lo,
                    url = (case canonicalurl rpage of None \<Rightarrow> [] | Some u \<Rightarrow> u)\<rparr>)"
    by (rule process_page_template [OF h g])
  have "\<bar>?la - (39 + 55 / 60)\<bar> \<le> 4 / 100000"
    by (rule round_dms [OF rw eps]) simp_all
  then have la: "\<bar>?la - 399167 / 10000\<bar> < 1 / 10000" by linarith
  have "\<bar>?lo - (83 + 48 / 60)\<bar> \<le> 4 / 100000"
    by (rule round_dms [OF rw eps]) simp_all
  then have lo: "\<bar>- ?lo - (- (838 / 10))\<bar> < 1 / 10000" by linarith
  from p la lo show "\<exists>la lo.
       process_page flr batch rpage =
         Inr (Some \<lparr>title = page_title rpage, city = city original, state = state original,
                    latitude = la, longitude = lo,
                    url = (case canonicalurl rpage of None \<Rightarrow> [] | Some u \<Rightarrow> u)\<rparr>) \<and>
       \<bar>la - 399167 / 10000\<bar> < 1 / 10000 \<and> \<bar>lo - (- (838 / 10))\<bar> < 1 / 10000"
    by blast
qed

theorem dms_conversion_witness:
  "re_search_coord ''{{coord|39|55|0|N|83|48|0|W}}'' =
      Some [''39'', ''55'', ''0'', ''N'', ''83'', ''48'', ''0'', ''W''] \<and>
   rounds_within 0 exact_real_ops \<and>
   process_page exact_real_ops [example_entry] template_page =
     Inr (Some \<lparr>title = ''Springfield, Ohio'', city = ''Springfield'', state = ''Ohio'',
                latitude = 479 / 12, longitude = - (419 / 5), url = []\<rparr>) \<and>
   (\<exists>la lo.
       process_page exact_real_ops [example_entry] template_page =
         Inr (Some \<lparr>title = ''Springfield, Ohio'', city = ''Springfield'', state = ''Ohio'',
                    latitude = la, longitude = lo, url = []\<rparr>) \<and>
       \<bar>la - 399167 / 10000\<bar> < 1 / 10000 \<and> \<bar>lo - (- (838 / 10))\<bar> < 1 / 10000)"
proof -
  have h1: "find (\<lambda>s. title s = page_title template_page) [example_entry] = Some example_entry"
    by (simp add: template_page_def example_entry_def)
  have h2: "coordinates template_page = None"
    by (simp add: template_page_def)
  have h3: "revisions template_page = Some (''{{coord|39|55|0|N|83|48|0|W}}'' # [])"
    by (simp add: template_page_def)
  have g: "re_search_coord ''{{coord|39|55|0|N|83|48|0|W}}'' =
      Some [''39'', ''55'', ''0'', ''N'', ''83'', ''48'', ''0'', ''W'']"
    by code_simp
  have e: "(0::real) \<le> 1 / 10000000" by simp
  note f = exact_real_to_float
  note t = dms_conversion [of template_page "[example_entry]" example_entry
      "''{{coord|39|55|0|N|83|48|0|W}}''" "[]"
      "''39''" "''55''" "''0''" "''N''" "''83''" "''48''" "''0''" "''W''"
      exact_real_ops 39 55 0 83 48 0 template_page "[]" 0 exact_real_ops]
  have "process_page exact_real_ops [example_entry] template_page =
      Inr (Some \<lparr>title = page_title template_page, city = city example_entry,
                 state = state example_entry,
                 latitude =
                   (if ''N'' = ''S'' \<or> ''N'' = ''s''
                    then fneg exact_real_ops
                      (fadd exact_real_ops (fadd exact_real_ops 39 (fdiv exact_real_ops 55 60))
                        (fdiv exact_real_ops 0 3600))
                    else fadd exact_real_ops (fadd exact_real_ops 39 (fdiv exact_real_ops 55 60))
                        (fdiv exact_real_ops 0 3600)),
                 longitude =
                   (if ''W'' = ''W'' \<or> ''W'' = ''w''
                    then fneg exact_real_ops
                      (fadd exact_real_ops (fadd exact_real_ops 83 (fdiv exact_real_ops 48 60))
                        (fdiv exact_real_ops 0 3600))
                    else fadd exact_real_ops (fadd exact_real_ops 83 (fdiv exact_real_ops 48 60))
                        (fdiv exact_real_ops 0 3600)),
                 url = (case canonicalurl template_page of None \<Rightarrow> [] | Some u \<Rightarrow> u)\<rparr>)"
    using t [THEN conjunct1] h1 h2 h3 g f(1) f(2) f(3) f(4) f(5) by blast
  then have c1: "process_page exact_real_ops [example_entry] template_page =
     Inr (Some \<lparr>title = ''Springfield, Ohio'', city = ''Springfield'', state = ''Ohio'',
                latitude = 479 / 12, longitude = - (419 / 5), url = []\<rparr>)"
    by (simp add: exact_real_ops_def template_page_def example_entry_def)
  have "\<exists>la lo.
       process_page exact_real_ops [example_entry] template_page =
         Inr (Some \<lparr>title = page_title template_page, city = city example_entry,
                    state = state example_entry,
                    latitude = la, longitude = lo,
                    url = (case canonicalurl template_page of None \<Rightarrow> [] | Some u \<Rightarrow> u)\<rparr>) \<and>
       \<bar>la - 399167 / 10000\<bar> < 1 / 10000 \<and> \<bar>lo - (- (838 / 10))\<bar> < 1 / 10000"
    using t [THEN conjunct2] h1 h2 h3 exact_real_rounds e f(1) f(2) f(3) f(4) f(5) by blast
  then have c2: "\<exists>la lo.
       process_page exact_real_ops [example_entry] template_page =
         Inr (Some \<lparr>title = ''Springfield, Ohio'', city = ''Springfield'', state = ''Ohio'',
                    latitude = la, longitude = lo, url = []\<rparr>) \<and>
       \<bar>la - 399167 / 10000\<bar> < 1 / 10000 \<and> \<bar>lo - (- (838 / 10))\<bar> < 1 / 10000"
    by (simp add: template_page_def example_entry_def)
  from g exact_real_rounds c1 c2 show ?thesis by blast
qed

end
